theory Spec2Isabelle
  imports Complex_Main "HOL-Library.Log_Nat" "HOL-Library.Multiset"
begin

section \<open>Top-k evaluation of a latent-factor recommender\<close>

text \<open>
  The notebook defines two functions, \<^verbatim>\<open>predict_from_latent\<close> and \<^verbatim>\<open>precision_at_k\<close>.
  Both are glue around NumPy, pandas and Keras. The embedding below follows the two
  function bodies statement by statement; the library calls they make are modelled by
  the small definitions of the first subsections.

  \<^item> Identifiers (\<^verbatim>\<open>user_id\<close>, \<^verbatim>\<open>item_id\<close>, \<^verbatim>\<open>k\<close>, \<^verbatim>\<open>no_items\<close>) are Python integers:
    \<^typ>\<open>int\<close>. The \<^verbatim>\<open>int32\<close> element type of \<^verbatim>\<open>pid_array\<close> is not modelled: item counts
    are taken to fit.
  \<^item> A floating-point number is the rational it denotes, or one of the three special
    values. Comparison, negation and sorting are exact on floats, so they are modelled
    exactly. The final division is modelled with its rounding (round to nearest, ties to
    even, 53 bits). The embedding tables hold float32 values; \<^verbatim>\<open>np.dot\<close> is a parameter
    of the model with a contract, because NumPy leaves the order of its additions open,
    and one instance of it accumulates in float32 from left to right. The two zeros are
    not told apart.
  \<^item> Raised exceptions are values of \<^typ>\<open>'e + 'a\<close>, \<^term>\<open>Inl\<close> the exception. A function
    that works on the heap gives the heap it leaves in both cases: what was written
    before an exception stays written.
  \<^item> NumPy arrays that a score function returns live in a heap, because
    \<^verbatim>\<open>precision_at_k\<close> writes into them; an address is an index of the heap. The heap
    holds arrays of floats only. An address outside the heap stands for a returned
    object that is no array: the assignment into it raises TypeError.
  \<^item> The frames and the embedding tables are values: \<^verbatim>\<open>get_weights\<close> hands out copies of
    the tables, and the two functions read the frames only. What a score function can
    change is the heap.
\<close>

subsection \<open>Exceptions\<close>

datatype py_error = IndexError | ValueError | ZeroDivisionError | OverflowError | TypeError

subsection \<open>Floating-point values and NumPy's sort order\<close>

datatype score = NInf | Fin rat | PInf | NaN

text \<open>Unary minus, as in \<^verbatim>\<open>-predictions\<close>.\<close>

fun fneg :: "score \<Rightarrow> score" where
  "fneg NInf = PInf"
| "fneg (Fin x) = Fin (- x)"
| "fneg PInf = NInf"
| "fneg NaN = NaN"

text \<open>
  The order in which \<^verbatim>\<open>np.sort\<close> and \<^verbatim>\<open>np.argsort\<close> arrange floats: the numeric order,
  with every NaN after every number. On values other than NaN it is the comparison of
  the floats themselves.
\<close>

fun np_le :: "score \<Rightarrow> score \<Rightarrow> bool" where
  "np_le _ NaN = True"
| "np_le NaN _ = False"
| "np_le NInf _ = True"
| "np_le _ NInf = False"
| "np_le _ PInf = True"
| "np_le PInf _ = False"
| "np_le (Fin x) (Fin y) = (x \<le> y)"

instantiation score :: linorder
begin

definition less_eq_score :: "score \<Rightarrow> score \<Rightarrow> bool" where
  "less_eq_score a b = np_le a b"

definition less_score :: "score \<Rightarrow> score \<Rightarrow> bool" where
  "less_score a b = (np_le a b \<and> \<not> np_le b a)"

instance
proof
  fix x y z :: score
  show "(x < y) = (x \<le> y \<and> \<not> y \<le> x)"
    by (simp add: less_score_def less_eq_score_def)
  show "x \<le> x"
    by (cases x) (simp_all add: less_eq_score_def)
  show "x \<le> y \<Longrightarrow> y \<le> z \<Longrightarrow> x \<le> z"
    by (cases x; cases y; cases z) (simp_all add: less_eq_score_def)
  show "x \<le> y \<Longrightarrow> y \<le> x \<Longrightarrow> x = y"
    by (cases x; cases y) (simp_all add: less_eq_score_def)
  show "x \<le> y \<or> y \<le> x"
    by (cases x; cases y) (auto simp add: less_eq_score_def)
qed

end

subsection \<open>Binary64 rounding\<close>

text \<open>
  \<^verbatim>\<open>float(k)\<close> and \<^verbatim>\<open>/\<close> return the double nearest to the exact result, ties to the
  even significand; below \<open>2\<^sup>-\<^sup>1\<^sup>0\<^sup>2\<^sup>2\<close> the spacing of doubles stays \<open>2\<^sup>-\<^sup>1\<^sup>0\<^sup>7\<^sup>4\<close>.
\<close>

definition round_half_even :: "rat \<Rightarrow> int" where
  "round_half_even q =
     (let f = \<lfloor>q\<rfloor>; r = q - of_int f
      in if r < 1 / 2 then f else if 1 / 2 < r then f + 1 else if even f then f else f + 1)"

definition pow2 :: "int \<Rightarrow> rat" where
  "pow2 s = (if 0 \<le> s then 2 ^ nat s else 1 / 2 ^ nat (- s))"

text \<open>The binary exponent of a positive rational: \<open>pow2 e \<le> q < pow2 (e + 1)\<close>.\<close>

definition ilog2 :: "rat \<Rightarrow> int" where
  "ilog2 q = (let (a, b) = quotient_of q; d = bitlen a - bitlen b
              in if pow2 d \<le> q then d else d - 1)"

definition round_binary64 :: "rat \<Rightarrow> rat" where
  "round_binary64 q =
     (if q = 0 then 0
      else let s = min (52 - ilog2 \<bar>q\<bar>) 1074
           in sgn q * of_int (round_half_even (\<bar>q\<bar> * pow2 s)) / pow2 s)"

text \<open>Results of magnitude \<open>2\<^sup>1\<^sup>0\<^sup>2\<^sup>4\<close> or more are not doubles.\<close>

definition overflows :: "rat \<Rightarrow> bool" where
  "overflows x = (2 ^ 1024 \<le> \<bar>x\<bar>)"

text \<open>\<^verbatim>\<open>float(n)\<close> for a Python integer: OverflowError when the integer is too large.\<close>

definition py_float :: "int \<Rightarrow> py_error + rat" where
  "py_float n = (let x = round_binary64 (of_int n)
                 in if overflows x then Inl OverflowError else Inr x)"

text \<open>
  \<^verbatim>\<open>n / y\<close> for a Python integer \<open>n\<close> and a float \<open>y\<close>: the integer is converted first,
  a zero divisor raises ZeroDivisionError, the quotient is rounded. The quotient of two
  doubles overflows to infinity without an exception; the result type covers it.
\<close>

definition py_truediv :: "int \<Rightarrow> rat \<Rightarrow> py_error + score" where
  "py_truediv n y =
     (case py_float n of
        Inl e \<Rightarrow> Inl e
      | Inr x \<Rightarrow>
          if y = 0 then Inl ZeroDivisionError
          else let q = round_binary64 (x / y)
               in Inr (if overflows q then (if 0 < q then PInf else NInf) else Fin q))"

subsection \<open>Binary32 arithmetic\<close>

text \<open>
  The weights of a Keras layer are float32 arrays, and \<^verbatim>\<open>np.dot\<close> of float32 arrays
  returns float32. A float32 has 24 significant bits; below \<open>2\<^sup>-\<^sup>1\<^sup>2\<^sup>6\<close> the spacing stays
  \<open>2\<^sup>-\<^sup>1\<^sup>4\<^sup>9\<close>; a rounded result of magnitude \<open>2\<^sup>1\<^sup>2\<^sup>8\<close> or more is an infinity.
\<close>

definition round_binary32 :: "rat \<Rightarrow> rat" where
  "round_binary32 q =
     (if q = 0 then 0
      else let s = min (23 - ilog2 \<bar>q\<bar>) 149
           in sgn q * of_int (round_half_even (\<bar>q\<bar> * pow2 s)) / pow2 s)"

definition rnd32 :: "rat \<Rightarrow> score" where
  "rnd32 q = (let r = round_binary32 q
              in if 2 ^ 128 \<le> r then PInf else if r \<le> - (2 ^ 128) then NInf else Fin r)"

text \<open>The values a float32 can hold.\<close>

definition is_float32 :: "score \<Rightarrow> bool" where
  "is_float32 x = (case x of Fin q \<Rightarrow> round_binary32 q = q \<and> \<bar>q\<bar> < 2 ^ 128 | _ \<Rightarrow> True)"

text \<open>
  The float32 product and sum: NaN is contagious, zero times an infinity and the sum
  of the two infinities are NaN, anything else is the exact result, rounded.
\<close>

fun fmul32 :: "score \<Rightarrow> score \<Rightarrow> score" where
  "fmul32 NaN _ = NaN"
| "fmul32 _ NaN = NaN"
| "fmul32 (Fin x) (Fin y) = rnd32 (x * y)"
| "fmul32 (Fin x) PInf = (if x = 0 then NaN else if 0 < x then PInf else NInf)"
| "fmul32 (Fin x) NInf = (if x = 0 then NaN else if 0 < x then NInf else PInf)"
| "fmul32 PInf (Fin y) = (if y = 0 then NaN else if 0 < y then PInf else NInf)"
| "fmul32 NInf (Fin y) = (if y = 0 then NaN else if 0 < y then NInf else PInf)"
| "fmul32 PInf PInf = PInf"
| "fmul32 PInf NInf = NInf"
| "fmul32 NInf PInf = NInf"
| "fmul32 NInf NInf = PInf"

fun fadd32 :: "score \<Rightarrow> score \<Rightarrow> score" where
  "fadd32 NaN _ = NaN"
| "fadd32 _ NaN = NaN"
| "fadd32 (Fin x) (Fin y) = rnd32 (x + y)"
| "fadd32 (Fin x) PInf = PInf"
| "fadd32 (Fin x) NInf = NInf"
| "fadd32 PInf (Fin y) = PInf"
| "fadd32 NInf (Fin y) = NInf"
| "fadd32 PInf PInf = PInf"
| "fadd32 PInf NInf = NaN"
| "fadd32 NInf PInf = NaN"
| "fadd32 NInf NInf = NInf"

subsection \<open>NumPy indexing, slicing and arrays\<close>

text \<open>\<^verbatim>\<open>np.arange(no_items)\<close>: empty when the bound is not positive.\<close>

definition np_arange :: "int \<Rightarrow> int list" where
  "np_arange n = map int [0..<nat n]"

text \<open>
  An index into an axis of length \<open>n\<close>: a negative index counts from the end, anything
  outside \<open>[-n, n)\<close> raises IndexError.
\<close>

definition np_index :: "nat \<Rightarrow> int \<Rightarrow> py_error + nat" where
  "np_index n i =
     (if 0 \<le> i \<and> i < int n then Inr (nat i)
      else if - int n \<le> i \<and> i < 0 then Inr (nat (i + int n))
      else Inl IndexError)"

text \<open>
  \<^verbatim>\<open>xs[idx] = v\<close> for an integer index array \<open>idx\<close> and a scalar \<open>v\<close>. NumPy checks
  every index before it writes the first entry: when the assignment raises, the array
  is as it was.
\<close>

fun np_setitem :: "'a list \<Rightarrow> int list \<Rightarrow> 'a \<Rightarrow> py_error + 'a list" where
  "np_setitem xs [] v = Inr xs"
| "np_setitem xs (i # idx) v =
     (case np_index (length xs) i of
        Inl e \<Rightarrow> Inl e
      | Inr j \<Rightarrow> np_setitem (xs[j := v]) idx v)"

text \<open>\<^verbatim>\<open>xs[:k]\<close>: a negative \<open>k\<close> drops the last \<open>-k\<close> elements.\<close>

definition py_slice_to :: "int \<Rightarrow> 'a list \<Rightarrow> 'a list" where
  "py_slice_to k xs = (if 0 \<le> k then take (nat k) xs else take (length xs - nat (- k)) xs)"

text \<open>
  \<^verbatim>\<open>np.argsort\<close> is a parameter of the model. NumPy promises a permutation of the
  positions that puts the values in sort order; its default algorithm is not stable, so
  the order among equal values is left open.
\<close>

definition argsort_spec :: "(score list \<Rightarrow> nat list) \<Rightarrow> bool" where
  "argsort_spec argsort =
     (\<forall>xs. mset (argsort xs) = mset [0..<length xs] \<and> sorted (map ((!) xs) (argsort xs)))"

text \<open>One argsort that meets the contract: the stable one.\<close>

definition stable_argsort :: "score list \<Rightarrow> nat list" where
  "stable_argsort xs = sort_key ((!) xs) [0..<length xs]"

subsection \<open>The heap of score arrays\<close>

type_synonym heap = "score list list"

definition heap_get :: "heap \<Rightarrow> nat \<Rightarrow> score list option" where
  "heap_get h a = (if a < length h then Some (h ! a) else None)"

definition heap_alloc :: "heap \<Rightarrow> score list \<Rightarrow> nat \<times> heap" where
  "heap_alloc h xs = (length h, h @ [xs])"

text \<open>
  The outcome of a function that works on the heap: the exception and the heap it
  leaves, or the value and the heap it leaves.
\<close>

type_synonym 'a outcome = "py_error \<times> heap + 'a \<times> heap"

subsection \<open>Data frames\<close>

text \<open>The columns that \<^verbatim>\<open>pd.read_csv\<close> names in the notebook.\<close>

record rating_row =
  user_id :: int
  item_id :: int
  rating :: int
  timestamp :: int

type_synonym dataframe = "rating_row list"

text \<open>
  \<^verbatim>\<open>df.groupby('user_id')\<close>, iterated: one pair per distinct key, keys ascending, each
  with the rows of that key in their original order.
\<close>

definition groupby_user_id :: "dataframe \<Rightarrow> (int \<times> dataframe) list" where
  "groupby_user_id df =
     map (\<lambda>u. (u, filter (\<lambda>r. user_id r = u) df)) (sort (remdups (map user_id df)))"

subsection \<open>predict_from_latent\<close>

text \<open>
  A two-dimensional array with its shape; the shape survives when there are no rows.
\<close>

record ndarray2 =
  nrows :: nat
  ncols :: nat
  cells :: "score list list"


text \<open>
  What \<^verbatim>\<open>model.get_layer(name).get_weights()[0]\<close> reads: the two embedding tables.
  \<^verbatim>\<open>get_weights\<close> hands out copies, so the tables are values here.
\<close>

record keras_model =
  user_matrix :: ndarray2
  item_matrix :: ndarray2

text \<open>\<^verbatim>\<open>M[i]\<close>: one row.\<close>

definition np_row :: "ndarray2 \<Rightarrow> int \<Rightarrow> py_error + score list" where
  "np_row M i = (case np_index (nrows M) i of Inl e \<Rightarrow> Inl e | Inr j \<Rightarrow> Inr (cells M ! j))"

text \<open>\<^verbatim>\<open>M[pids]\<close>: the rows at an index array, in the order of the indices.\<close>

fun np_rows :: "ndarray2 \<Rightarrow> int list \<Rightarrow> py_error + score list list" where
  "np_rows M [] = Inr []"
| "np_rows M (p # pids) =
     (case np_row M p of
        Inl e \<Rightarrow> Inl e
      | Inr r \<Rightarrow> (case np_rows M pids of Inl e \<Rightarrow> Inl e | Inr rs \<Rightarrow> Inr (r # rs)))"

definition np_take :: "ndarray2 \<Rightarrow> int list \<Rightarrow> py_error + ndarray2" where
  "np_take M pids =
     (case np_rows M pids of
        Inl e \<Rightarrow> Inl e
      | Inr rs \<Rightarrow> Inr \<lparr>nrows = length pids, ncols = ncols M, cells = rs\<rparr>)"

text \<open>\<^verbatim>\<open>M.T\<close>.\<close>

definition np_T :: "ndarray2 \<Rightarrow> ndarray2" where
  "np_T M = \<lparr>nrows = ncols M, ncols = nrows M,
            cells = map (\<lambda>j. map (\<lambda>r. r ! j) (cells M)) [0..<ncols M]\<rparr>"

text \<open>Column \<open>j\<close> of a matrix.\<close>

definition np_column :: "ndarray2 \<Rightarrow> nat \<Rightarrow> score list" where
  "np_column M j = map (\<lambda>r. r ! j) (cells M)"







text \<open>
  One \<^verbatim>\<open>np.dot\<close> that meets the contract: the products are added from left to right,
  each product and each sum rounded to float32.
\<close>

definition dot32 :: "score list \<Rightarrow> score list \<Rightarrow> score" where
  "dot32 u v = foldl (\<lambda>acc (x, y). fadd32 acc (fmul32 x y)) (Fin 0) (zip u v)"

definition seq_np_dot :: "score list \<Rightarrow> ndarray2 \<Rightarrow> py_error + score list" where
  "seq_np_dot v M =
     (if length v \<noteq> nrows M then Inl ValueError
      else Inr (map (\<lambda>j. dot32 v (np_column M j)) [0..<ncols M]))"

text \<open>
  The function itself. Its last parameter \<^verbatim>\<open>train_ratings\<close> is not used. The result of
  \<^verbatim>\<open>np.dot\<close> is a new array.
\<close>

definition predict_from_latent ::
  "(score list \<Rightarrow> ndarray2 \<Rightarrow> py_error + score list) \<Rightarrow>
   keras_model \<Rightarrow> int \<Rightarrow> int list \<Rightarrow> dataframe \<Rightarrow> heap \<Rightarrow> nat outcome" where
  "predict_from_latent np_dot model uid pids train_ratings h =
     (case np_row (user_matrix model) uid of
        Inl e \<Rightarrow> Inl (e, h)
      | Inr user_vector \<Rightarrow>
          (case np_take (item_matrix model) pids of
             Inl e \<Rightarrow> Inl (e, h)
           | Inr item_rows \<Rightarrow>
               (case np_dot user_vector (np_T item_rows) of
                  Inl e \<Rightarrow> Inl (e, h)
                | Inr scores \<Rightarrow> Inr (heap_alloc h scores))))"

subsection \<open>precision_at_k\<close>

text \<open>
  A score function receives the model, the user, the candidates and the training frame,
  may read and change the heap, and returns the address of an array or raises.
\<close>

type_synonym 'm pred_func =
  "'m \<Rightarrow> int \<Rightarrow> int list \<Rightarrow> dataframe \<Rightarrow> heap \<Rightarrow> nat outcome"

text \<open>
  The body of the loop, for one group of \<^verbatim>\<open>test_ratings.groupby('user_id')\<close>, in two
  parts. The first runs from \<^verbatim>\<open>train_pids = ...\<close> to \<^verbatim>\<open>top_k = ...\<close>: it calls the score
  function, overwrites the returned array at the training items and selects the first
  \<open>k\<close> positions of the descending order.
\<close>

definition user_top_k ::
  "(score list \<Rightarrow> nat list) \<Rightarrow> 'm \<Rightarrow> 'm pred_func \<Rightarrow> dataframe \<Rightarrow> int list \<Rightarrow> int \<Rightarrow>
   int \<Rightarrow> heap \<Rightarrow> int set outcome" where
  "user_top_k argsort model pred_func train_ratings pid_array k uid h =
     (let train_pids = map item_id (filter (\<lambda>r. user_id r = uid) train_ratings)
      in (case pred_func model uid pid_array train_ratings h of
            Inl eh \<Rightarrow> Inl eh
          | Inr (a, h1) \<Rightarrow>
              (case heap_get h1 a of
                 None \<Rightarrow> Inl (TypeError, h1)
               | Some predictions \<Rightarrow>
                   (case np_setitem predictions train_pids NInf of
                      Inl e \<Rightarrow> Inl (e, h1)
                    | Inr predictions' \<Rightarrow>
                        Inr (int ` set (py_slice_to k (argsort (map fneg predictions'))),
                             h1[a := predictions'])))))"

text \<open>The second part is the last statement: the precision of the user is appended.\<close>

definition user_precision ::
  "(score list \<Rightarrow> nat list) \<Rightarrow> 'm \<Rightarrow> 'm pred_func \<Rightarrow> dataframe \<Rightarrow> int list \<Rightarrow> int \<Rightarrow>
   int \<Rightarrow> dataframe \<Rightarrow> heap \<Rightarrow> score outcome" where
  "user_precision argsort model pred_func train_ratings pid_array k uid user_test_rating h =
     (let test_pids = set (map item_id user_test_rating)
      in (case user_top_k argsort model pred_func train_ratings pid_array k uid h of
            Inl eh \<Rightarrow> Inl eh
          | Inr (top_k, h2) \<Rightarrow>
              (case py_float k of
                 Inl e \<Rightarrow> Inl (e, h2)
               | Inr fk \<Rightarrow>
                   (case py_truediv (int (card (top_k \<inter> test_pids))) fk of
                      Inl e \<Rightarrow> Inl (e, h2)
                    | Inr p \<Rightarrow> Inr (p, h2)))))"

fun precision_loop ::
  "(int \<Rightarrow> dataframe \<Rightarrow> heap \<Rightarrow> score outcome) \<Rightarrow> (int \<times> dataframe) list \<Rightarrow>
   score list \<Rightarrow> heap \<Rightarrow> score list outcome" where
  "precision_loop body [] precisions h = Inr (precisions, h)"
| "precision_loop body ((uid, user_test_rating) # groups) precisions h =
     (case body uid user_test_rating h of
        Inl eh \<Rightarrow> Inl eh
      | Inr (p, h') \<Rightarrow> precision_loop body groups (precisions @ [p]) h')"

definition precision_at_k ::
  "(score list \<Rightarrow> nat list) \<Rightarrow> 'm \<Rightarrow> 'm pred_func \<Rightarrow> dataframe \<Rightarrow> dataframe \<Rightarrow> int \<Rightarrow> int \<Rightarrow>
   int \<Rightarrow> heap \<Rightarrow> score list outcome" where
  "precision_at_k argsort model pred_func train_ratings test_ratings no_users no_items k h =
     (let pid_array = np_arange no_items
      in precision_loop
           (user_precision argsort model pred_func train_ratings pid_array k)
           (groupby_user_id test_ratings) [] h)"

section \<open>The vocabulary of the specification\<close>

text \<open>
  The specification speaks of histories, of masked scores and of the top-k set. These
  definitions follow its words; the theorems compare them with what the code computes.
\<close>

text \<open>
  TrainingHistory and TestHistory: the set of items a frame holds for a user. A user is
  present in a history when this set is not empty.
\<close>

definition history :: "dataframe \<Rightarrow> int \<Rightarrow> int set" where
  "history df uid = item_id ` {r \<in> set df. user_id r = uid}"

text \<open>The scores with those of the seen items forced to negative infinity.\<close>

definition spec_masked :: "score list \<Rightarrow> int set \<Rightarrow> score list" where
  "spec_masked xs seen = map (\<lambda>j. if int j \<in> seen then NInf else xs ! j) [0..<length xs]"

text \<open>
  A top-k set over the candidates \<open>[0, n)\<close>: \<open>k\<close> candidates (all of them when there are
  fewer than \<open>k\<close>), none of which scores below a candidate left out. With ties at the
  boundary several sets qualify.
\<close>

definition spec_top_k :: "nat \<Rightarrow> score list \<Rightarrow> int \<Rightarrow> int set \<Rightarrow> bool" where
  "spec_top_k n xs k T =
     (T \<subseteq> int ` {0..<n} \<and> card T = min (nat k) n \<and>
      (\<forall>i \<in> T. \<forall>j \<in> int ` {0..<n} - T. xs ! nat j \<le> xs ! nat i))"

text \<open>
  The same over item identifiers, for a score function that gives every item of
  \<open>[0, no_items)\<close> a score: the score of an item after masking, and a top-k set of items.
\<close>

definition spec_masked_score :: "(int \<Rightarrow> score) \<Rightarrow> int set \<Rightarrow> int \<Rightarrow> score" where
  "spec_masked_score f seen pid = (if pid \<in> seen then NInf else f pid)"

definition spec_top_k_items :: "int \<Rightarrow> (int \<Rightarrow> score) \<Rightarrow> int \<Rightarrow> int set \<Rightarrow> bool" where
  "spec_top_k_items no_items f k T =
     (T \<subseteq> {0..<no_items} \<and> card T = min (nat k) (nat no_items) \<and>
      (\<forall>i \<in> T. \<forall>j \<in> {0..<no_items} - T. f j \<le> f i))"

text \<open>
  No tie at the boundary of the top-k set: some set of \<open>k\<close> items (all items when there are
  fewer) scores strictly above every item left out.
\<close>

definition untied_top_k :: "int \<Rightarrow> (int \<Rightarrow> score) \<Rightarrow> int \<Rightarrow> bool" where
  "untied_top_k no_items f k =
     (\<exists>T. T \<subseteq> {0..<no_items} \<and> card T = min (nat k) (nat no_items) \<and>
          (\<forall>i \<in> T. \<forall>j \<in> {0..<no_items} - T. f j < f i))"

text \<open>What a caller observes of a score function's call: the exception or the scores.\<close>

definition returned :: "nat outcome \<Rightarrow> py_error + score list option" where
  "returned r = (case r of Inl (e, h) \<Rightarrow> Inl e | Inr (a, h) \<Rightarrow> Inr (heap_get h a))"

text \<open>The result of a call without the heap it leaves: the exception or the value.\<close>

definition result_of :: "'a outcome \<Rightarrow> py_error + 'a" where
  "result_of r = (case r of Inl (e, h) \<Rightarrow> Inl e | Inr (x, h) \<Rightarrow> Inr x)"

text \<open>The heap a call leaves, whether it returned or raised.\<close>

definition heap_of :: "'a outcome \<Rightarrow> heap" where
  "heap_of r = (case r of Inl (e, h) \<Rightarrow> h | Inr (x, h) \<Rightarrow> h)"

text \<open>
  A score function whose outcome, as its caller observes it, is the same from every heap,
  for the users \<open>users\<close> and candidates from \<open>[0, no_items)\<close>.
\<close>

definition heap_independent :: "'m pred_func \<Rightarrow> 'm \<Rightarrow> dataframe \<Rightarrow> int set \<Rightarrow> int \<Rightarrow> bool" where
  "heap_independent pred_func model train_ratings users no_items =
     (\<forall>uid \<in> users. \<forall>pids h1 h2. set pids \<subseteq> {0..<no_items} \<longrightarrow>
        returned (pred_func model uid pids train_ratings h1) =
        returned (pred_func model uid pids train_ratings h2))"

text \<open>
  A score function that returns, for the users \<open>users\<close> and any candidates from
  \<open>[0, no_items)\<close>, the scores \<open>score uid pid\<close> of the candidates in their order, none of
  them NaN.
\<close>

definition scores_candidates ::
  "'m pred_func \<Rightarrow> 'm \<Rightarrow> dataframe \<Rightarrow> int set \<Rightarrow> int \<Rightarrow> (int \<Rightarrow> int \<Rightarrow> score) \<Rightarrow> bool" where
  "scores_candidates pred_func model train_ratings users no_items score =
     (\<forall>uid \<in> users.
        (\<forall>pid \<in> {0..<no_items}. score uid pid \<noteq> NaN) \<and>
        (\<forall>pids h0. set pids \<subseteq> {0..<no_items} \<longrightarrow>
           (\<exists>a h1. pred_func model uid pids train_ratings h0 = Inr (a, h1) \<and>
                   heap_get h1 a = Some (map (score uid) pids))))"

text \<open>
  A score function that returns a fresh array: the arrays that existed before the call
  are unchanged by it, whether it returns or raises, and the address it returns was not
  in use before the call.
\<close>

definition allocates_fresh :: "'m pred_func \<Rightarrow> bool" where
  "allocates_fresh pred_func =
     (\<forall>model uid pids train_ratings h.
        take (length h) (heap_of (pred_func model uid pids train_ratings h)) = h \<and>
        (\<forall>a h1. pred_func model uid pids train_ratings h = Inr (a, h1) \<longrightarrow> length h \<le> a))"

text \<open>
  An array after the entries at the items \<open>seen\<close> have been overwritten with negative
  infinity; an item names a position as a NumPy index does.
\<close>

definition overwritten :: "score list \<Rightarrow> int set \<Rightarrow> score list \<Rightarrow> bool" where
  "overwritten xs seen xs' =
     (length xs' = length xs \<and>
      (\<forall>j < length xs.
         xs' ! j = (if \<exists>i \<in> seen. np_index (length xs) i = Inr j then NInf else xs ! j)))"

text \<open>Two heaps with the same addresses that agree everywhere except at one address.\<close>

definition only_changed_at :: "nat \<Rightarrow> heap \<Rightarrow> heap \<Rightarrow> bool" where
  "only_changed_at a h h' =
     (length h' = length h \<and> (\<forall>b. b \<noteq> a \<longrightarrow> heap_get h' b = heap_get h b))"

section \<open>Example inputs\<close>

text \<open>Small inputs on which the theorems below are instantiated.\<close>

definition row :: "int \<Rightarrow> int \<Rightarrow> rating_row" where
  "row uid pid = \<lparr>user_id = uid, item_id = pid, rating = 0, timestamp = 0\<rparr>"

text \<open>A score function that returns the scores of a table in a new array.\<close>

definition fresh_scores :: "(int \<Rightarrow> score list) \<Rightarrow> 'm pred_func" where
  "fresh_scores table model uid pids train_ratings h = Inr (heap_alloc h (table uid))"

text \<open>
  A score function that returns, for every user, the one array that its model owns; the
  model is the address of that array.
\<close>

definition cached_scores :: "nat pred_func" where
  "cached_scores model uid pids train_ratings h = Inr (model, h)"

text \<open>
  A score function that returns, in a new array, the score of each candidate it was
  given, in the order of the candidates.
\<close>

definition item_scores :: "(int \<Rightarrow> int \<Rightarrow> score) \<Rightarrow> 'm pred_func" where
  "item_scores score model uid pids train_ratings h = Inr (heap_alloc h (map (score uid) pids))"

text \<open>The scores of the four items of the example, the same for every user.\<close>

definition example_score :: "int \<Rightarrow> int \<Rightarrow> score" where
  "example_score uid pid =
     (if pid = 0 then Fin 5 else if pid = 1 then Fin 10 else if pid = 2 then Fin 0 else Fin 1)"

definition example_scores :: "int \<Rightarrow> score list" where
  "example_scores uid = [Fin 5, Fin 10, Fin 0, Fin 1]"

definition tied_scores :: "int \<Rightarrow> score list" where
  "tied_scores uid = [Fin 1, Fin 1, Fin 1]"

definition unit_scores :: "int \<Rightarrow> score list" where
  "unit_scores uid = [Fin 1]"

text \<open>
  A second argsort that meets the contract: among equal values the larger position
  comes first.
\<close>

definition reverse_argsort :: "score list \<Rightarrow> nat list" where
  "reverse_argsort xs = sort_key ((!) xs) (rev [0..<length xs])"

text \<open>Two users, of whom user 1 has seen item 1; three items.\<close>

definition shared_train :: dataframe where
  "shared_train = [row 1 1]"

definition shared_test :: dataframe where
  "shared_test = [row 0 1, row 1 2]"

text \<open>Embedding tables for two users and four items, with two factors.\<close>

definition example_model :: keras_model where
  "example_model =
     \<lparr>user_matrix = \<lparr>nrows = 2, ncols = 2, cells = [[Fin 1, Fin 2], [Fin 0, Fin 1]]\<rparr>,
      item_matrix = \<lparr>nrows = 4, ncols = 2,
                     cells = [[Fin 1, Fin 0], [Fin 0, Fin 1], [Fin 1, Fin 1], [Fin 2, Fin (- 1)]]\<rparr>\<rparr>"


definition example_train :: dataframe where
  "example_train = [row 0 0, row 1 2]"

definition example_test :: dataframe where
  "example_test = [row 1 0, row 0 1, row 1 1, row 0 2]"

text \<open>A training frame with a third user, who has no row in the test frame.\<close>

definition wider_train :: dataframe where
  "wider_train = [row 0 0, row 1 2, row 2 1]"

section \<open>Properties of the library model\<close>

subsection \<open>Binary64 rounding\<close>

lemma pow2_pos: "0 < pow2 s"
  by (simp add: pow2_def)

lemma pow2_powi: "pow2 s = 2 powi s"
  by (simp add: pow2_def power_int_def field_simps)

lemma pow2_add: "pow2 (s + t) = pow2 s * pow2 t"
  by (simp add: pow2_powi power_int_add)

lemma pow2_mono: "s \<le> t \<Longrightarrow> pow2 s \<le> pow2 t"
  by (simp add: pow2_powi power_int_increasing)

lemma pow2_nat: "0 \<le> s \<Longrightarrow> pow2 s = of_int (2 ^ nat s)"
  by (simp add: pow2_def)

lemma pow2_strict_mono: "s < t \<Longrightarrow> pow2 s < pow2 t"
  by (simp add: pow2_powi power_int_strict_increasing)

lemma pow2_le_iff: "pow2 s \<le> pow2 t \<longleftrightarrow> s \<le> t"
  using pow2_mono [of s t] pow2_strict_mono [of t s] by (cases "s \<le> t") auto

lemma pow2_less_iff: "pow2 s < pow2 t \<longleftrightarrow> s < t"
  using pow2_mono [of t s] pow2_strict_mono [of s t] by (cases "s < t") auto

lemma bitlen_pow2_bounds:
  assumes "0 < x"
  shows "pow2 (bitlen x - 1) \<le> of_int x" and "of_int x < pow2 (bitlen x)"
proof -
  have l: "1 \<le> bitlen x" using assms by (simp add: bitlen_alt_def)
  have "(of_int (2 ^ nat (bitlen x - 1)) :: rat) \<le> of_int x"
    using bitlen_bounds [OF assms] by (simp only: of_int_le_iff)
  then show "pow2 (bitlen x - 1) \<le> of_int x" using l by (simp add: pow2_nat)
  have "(of_int x :: rat) < of_int (2 ^ nat (bitlen x))"
    using bitlen_bounds [OF assms] by (simp only: of_int_less_iff)
  then show "of_int x < pow2 (bitlen x)" using l by (simp add: pow2_nat)
qed

lemma ilog2_bounds:
  assumes "0 < q"
  shows "pow2 (ilog2 q) \<le> q" and "q < pow2 (ilog2 q + 1)"
proof -
  obtain a b where ab: "quotient_of q = (a, b)" by (cases "quotient_of q")
  then have b: "0 < b" and q: "q = of_int a / of_int b"
    by (simp_all add: quotient_of_denom_pos quotient_of_div)
  with assms have a: "0 < a" by (simp add: zero_less_divide_iff)
  define d where "d = bitlen a - bitlen b"
  have la: "1 \<le> bitlen a" and lb: "1 \<le> bitlen b"
    using a b by (simp_all add: bitlen_alt_def)
  have a1: "pow2 (bitlen a - 1) \<le> of_int a" and a2: "of_int a < pow2 (bitlen a)"
    using bitlen_pow2_bounds [OF a] by simp_all
  have b1: "pow2 (bitlen b - 1) \<le> of_int b" and b2: "of_int b < pow2 (bitlen b)"
    using bitlen_pow2_bounds [OF b] by simp_all
  have bpos: "(0::rat) < of_int b" using b by simp
  have lo: "pow2 (d - 1) < q"
  proof -
    have "pow2 (d - 1) * of_int b < pow2 (d - 1) * pow2 (bitlen b)"
      using b2 pow2_pos by simp
    also have "\<dots> = pow2 (bitlen a - 1)"
      by (simp add: d_def flip: pow2_add)
    also have "\<dots> \<le> of_int a" by (rule a1)
    finally show ?thesis using bpos by (simp add: q pos_less_divide_eq)
  qed
  have hi: "q < pow2 (d + 1)"
  proof -
    have "of_int a < pow2 (bitlen a)" by (rule a2)
    also have "\<dots> = pow2 (d + 1) * pow2 (bitlen b - 1)"
      by (simp add: d_def flip: pow2_add)
    also have "\<dots> \<le> pow2 (d + 1) * of_int b"
      using b1 pow2_pos by simp
    finally show ?thesis using bpos by (simp add: q pos_divide_less_eq)
  qed
  have il: "ilog2 q = (if pow2 d \<le> q then d else d - 1)"
    by (simp add: ilog2_def ab d_def)
  show "pow2 (ilog2 q) \<le> q" using lo by (simp add: il)
  show "q < pow2 (ilog2 q + 1)" using hi by (simp add: il)
qed

lemma ilog2_le: "0 < q \<Longrightarrow> q \<le> pow2 e \<Longrightarrow> ilog2 q \<le> e"
  using ilog2_bounds(1) [of q] pow2_le_iff [of "ilog2 q" e] by linarith

lemma ilog2_ge: "0 < q \<Longrightarrow> pow2 e \<le> q \<Longrightarrow> e \<le> ilog2 q"
  using ilog2_bounds(2) [of q] pow2_less_iff [of e "ilog2 q + 1"] by (smt (verit) order.strict_trans1)

lemma floor_frac_bounds: "of_int \<lfloor>x\<rfloor> \<le> (x::rat)" "x < of_int \<lfloor>x\<rfloor> + 1"
  by linarith+

lemma round_half_even_error: "\<bar>of_int (round_half_even x) - x\<bar> \<le> 1 / 2"
  using floor_frac_bounds [of x] unfolding round_half_even_def Let_def
  by (auto simp: abs_le_iff)

lemma round_half_even_of_int: "round_half_even (of_int n) = n"
  by (simp add: round_half_even_def)

lemma round_half_even_le:
  assumes "x \<le> of_int n"
  shows "round_half_even x \<le> n"
proof (cases "\<lfloor>x\<rfloor> = n")
  case True
  then have "x = of_int n" using assms floor_frac_bounds(1) [of x] by simp
  then show ?thesis by (simp add: round_half_even_of_int)
next
  case False
  moreover have "\<lfloor>x\<rfloor> \<le> n" using assms by (simp add: floor_le_iff)
  moreover have "round_half_even x \<le> \<lfloor>x\<rfloor> + 1"
    unfolding round_half_even_def Let_def by simp
  ultimately show ?thesis by linarith
qed

lemma round_half_even_ge:
  assumes "of_int n \<le> x"
  shows "n \<le> round_half_even x"
proof -
  have "n \<le> \<lfloor>x\<rfloor>" using assms by (simp add: le_floor_iff)
  then show ?thesis
    unfolding round_half_even_def Let_def by auto
qed

lemma round_binary64_pos:
  assumes "0 < q"
  shows "round_binary64 q =
           of_int (round_half_even (q * pow2 (min (52 - ilog2 q) 1074))) / pow2 (min (52 - ilog2 q) 1074)"
  using assms by (simp add: round_binary64_def Let_def)

lemma round_binary64_minus: "round_binary64 (- q) = - round_binary64 q"
  by (simp add: round_binary64_def Let_def sgn_minus)

lemma round_binary64_nonneg:
  assumes "0 \<le> q"
  shows "0 \<le> round_binary64 q"
proof (cases "q = 0")
  case True
  then show ?thesis by (simp add: round_binary64_def)
next
  case False
  with assms have q: "0 < q" by simp
  let ?s = "min (52 - ilog2 q) 1074"
  have "of_int 0 \<le> q * pow2 ?s" using q pow2_pos [of ?s] by simp
  then have "0 \<le> round_half_even (q * pow2 ?s)" by (rule round_half_even_ge)
  then show ?thesis using pow2_pos [of ?s] by (simp add: round_binary64_pos [OF q])
qed

lemma round_binary64_le_one:
  assumes "0 \<le> q" and "q \<le> 1"
  shows "round_binary64 q \<le> 1"
proof (cases "q = 0")
  case True
  then show ?thesis by (simp add: round_binary64_def)
next
  case False
  with assms have q: "0 < q" by simp
  let ?s = "min (52 - ilog2 q) 1074"
  have "ilog2 q \<le> 0" using q assms(2) by (intro ilog2_le) (simp_all add: pow2_def)
  then have s: "0 \<le> ?s" by simp
  have "q * pow2 ?s \<le> pow2 ?s" using assms(2) pow2_pos [of ?s] by simp
  then have "q * pow2 ?s \<le> of_int (2 ^ nat ?s)" using s by (simp only: pow2_nat)
  then have "round_half_even (q * pow2 ?s) \<le> 2 ^ nat ?s" by (rule round_half_even_le)
  then have "(of_int (round_half_even (q * pow2 ?s)) :: rat) \<le> of_int (2 ^ nat ?s)"
    by (simp only: of_int_le_iff)
  then have "of_int (round_half_even (q * pow2 ?s)) \<le> pow2 ?s" using s by (simp only: pow2_nat)
  then show ?thesis using pow2_pos [of ?s] by (simp add: round_binary64_pos [OF q])
qed

lemma round_binary64_error:
  assumes "pow2 (- 1022) \<le> q"
  shows "\<bar>round_binary64 q - q\<bar> \<le> q / 2 ^ 53"
proof -
  have q: "0 < q" using assms pow2_pos [of "- 1022"] by linarith
  have "- 1022 \<le> ilog2 q" using q assms by (rule ilog2_ge)
  then have s: "min (52 - ilog2 q) 1074 = 52 - ilog2 q" by simp
  let ?s = "52 - ilog2 q"
  let ?x = "q * pow2 ?s"
  have "pow2 52 = pow2 (ilog2 q) * pow2 ?s" by (simp flip: pow2_add)
  also have "\<dots> \<le> ?x" using ilog2_bounds(1) [OF q] pow2_pos [of ?s] by simp
  finally have x: "2 ^ 52 \<le> ?x" by (simp add: pow2_def)
  have "\<bar>of_int (round_half_even ?x) - ?x\<bar> \<le> 1 / 2" by (rule round_half_even_error)
  also have "\<dots> \<le> ?x / 2 ^ 53" using x by simp
  finally have e: "\<bar>of_int (round_half_even ?x) - ?x\<bar> \<le> ?x / 2 ^ 53" .
  have "\<bar>of_int (round_half_even ?x) - ?x\<bar> / pow2 ?s \<le> ?x / 2 ^ 53 / pow2 ?s"
    by (rule divide_right_mono [OF e]) (simp add: pow2_pos less_imp_le)
  moreover have "round_binary64 q - q = (of_int (round_half_even ?x) - ?x) / pow2 ?s"
    using pow2_pos [of ?s] by (simp add: round_binary64_pos [OF q] s diff_divide_distrib)
  then have "\<bar>of_int (round_half_even ?x) - ?x\<bar> / pow2 ?s = \<bar>round_binary64 q - q\<bar>"
    using pow2_pos [of ?s] by (simp only: abs_divide abs_of_pos)
  moreover have "?x / 2 ^ 53 / pow2 ?s = q / 2 ^ 53"
    using pow2_pos [of ?s] by simp
  ultimately show ?thesis by simp
qed

lemma round_binary64_of_int:
  assumes "\<bar>n\<bar> \<le> 2 ^ 53"
  shows "round_binary64 (of_int n) = of_int n"
proof -
  have pos: "round_binary64 (of_int m) = of_int m" if m: "0 < m" "m \<le> 2 ^ 53" for m :: int
  proof -
    let ?q = "of_int m :: rat"
    have q: "0 < ?q" using m by simp
    have "?q \<le> of_int (2 ^ 53)" using m(2) by (simp only: of_int_le_iff)
    then have "?q \<le> pow2 53" by (simp add: pow2_def)
    then have e53: "ilog2 ?q \<le> 53" using q by (intro ilog2_le)
    have "pow2 0 \<le> ?q" using m(1) by (simp add: pow2_def)
    then have e0: "0 \<le> ilog2 ?q" using q by (intro ilog2_ge)
    have s: "min (52 - ilog2 ?q) 1074 = 52 - ilog2 ?q" using e0 by simp
    let ?s = "52 - ilog2 ?q"
    have "\<exists>j. ?q * pow2 ?s = of_int j"
    proof (cases "ilog2 ?q = 53")
      case True
      then have "pow2 53 \<le> ?q" using ilog2_bounds(1) [OF q] by simp
      with \<open>?q \<le> pow2 53\<close> have "?q = pow2 53" by simp
      then have "?q * pow2 ?s = pow2 53 * pow2 (- 1)" using True by simp
      also have "\<dots> = of_int (2 ^ 52)" by (simp add: pow2_def)
      finally show ?thesis by blast
    next
      case False
      with e53 have "0 \<le> ?s" by simp
      then have "?q * pow2 ?s = of_int (m * 2 ^ nat ?s)" by (simp add: pow2_nat)
      then show ?thesis by blast
    qed
    then obtain j where j: "?q * pow2 ?s = of_int j" ..
    have "round_binary64 ?q = of_int (round_half_even (?q * pow2 ?s)) / pow2 ?s"
      by (simp add: round_binary64_pos [OF q] s)
    also have "\<dots> = ?q * pow2 ?s / pow2 ?s" by (simp only: j round_half_even_of_int)
    also have "\<dots> = ?q" using pow2_pos [of ?s] by simp
    finally show ?thesis .
  qed
  consider "n = 0" | "0 < n" | "n < 0" by linarith
  then show ?thesis
  proof cases
    case 1
    then show ?thesis by (simp add: round_binary64_def)
  next
    case 2
    then show ?thesis using pos [of n] assms by simp
  next
    case 3
    then have "round_binary64 (of_int (- n)) = of_int (- n)" using pos [of "- n"] assms by simp
    then show ?thesis using round_binary64_minus [of "of_int n"] by simp
  qed
qed

lemma round_binary64_of_int_nonzero:
  assumes "n \<noteq> 0"
  shows "round_binary64 (of_int n) \<noteq> 0"
proof -
  have pos: "0 < round_binary64 (of_int m)" if "0 < m" for m :: int
  proof -
    let ?q = "of_int m :: rat"
    have "pow2 (- 1022) \<le> pow2 0" by (rule pow2_mono) simp
    also have "\<dots> \<le> ?q" using that by (simp add: pow2_def)
    finally have "\<bar>round_binary64 ?q - ?q\<bar> \<le> ?q / 2 ^ 53" by (rule round_binary64_error)
    moreover have "?q / 2 ^ 53 < ?q" using that by simp
    ultimately show ?thesis by linarith
  qed
  show ?thesis
  proof (cases "0 < n")
    case True
    then show ?thesis using pos [of n] by simp
  next
    case False
    with assms have "0 < - n" by simp
    from pos [OF this] show ?thesis using round_binary64_minus [of "of_int n"] by simp
  qed
qed

lemma round_binary64_fraction_error:
  assumes "0 \<le> c" and "1 \<le> k" and "k \<le> 2 ^ 53"
  shows "\<bar>round_binary64 (of_int c / of_int k) * of_int k - of_int c\<bar> \<le> of_int c / 2 ^ 53"
proof (cases "c = 0")
  case True
  then show ?thesis by (simp add: round_binary64_def)
next
  case False
  let ?q = "of_int c / of_int k :: rat"
  have c: "1 \<le> c" using assms(1) False by simp
  have kpos: "(0::rat) < of_int k" using assms(2) by simp
  have "(of_int k :: rat) \<le> of_int (2 ^ 53)" using assms(3) by (simp only: of_int_le_iff)
  then have "1 / 2 ^ 53 \<le> 1 / (of_int k :: rat)" using kpos by (simp add: frac_le)
  also have "\<dots> \<le> ?q" using c kpos by (simp add: divide_right_mono)
  finally have "pow2 (- 53) \<le> ?q" by (simp add: pow2_def)
  moreover have "pow2 (- 1022) \<le> pow2 (- 53)" by (rule pow2_mono) simp
  ultimately have "pow2 (- 1022) \<le> ?q" by simp
  then have e: "\<bar>round_binary64 ?q - ?q\<bar> \<le> ?q / 2 ^ 53" by (rule round_binary64_error)
  have "\<bar>round_binary64 ?q - ?q\<bar> * of_int k \<le> ?q / 2 ^ 53 * of_int k"
    by (rule mult_right_mono [OF e]) (use kpos in simp)
  moreover have "\<bar>round_binary64 ?q - ?q\<bar> * of_int k = \<bar>round_binary64 ?q * of_int k - of_int c\<bar>"
  proof -
    have "round_binary64 ?q * of_int k - of_int c = (round_binary64 ?q - ?q) * of_int k"
      using kpos by (simp add: left_diff_distrib)
    then show ?thesis using kpos by (simp only: abs_mult abs_of_pos)
  qed
  moreover have "?q / 2 ^ 53 * of_int k = of_int c / 2 ^ 53" using kpos by simp
  ultimately show ?thesis by simp
qed

lemma round_binary64_half: "round_binary64 (1 / 2) = 1 / 2"
  by code_simp

lemma round_binary64_one: "round_binary64 1 = 1"
  using round_binary64_of_int [of 1] by simp

subsection \<open>Conversion and division\<close>

lemma py_float_exact:
  assumes "\<bar>n\<bar> \<le> 2 ^ 53"
  shows "py_float n = Inr (of_int n)"
proof -
  have "(of_int \<bar>n\<bar> :: rat) \<le> of_int (2 ^ 53)"
    using assms by (simp only: of_int_le_iff)
  then have "\<bar>of_int n :: rat\<bar> \<le> 2 ^ 53" by simp
  also have "\<dots> < 2 ^ 1024" by simp
  finally have "\<not> overflows (of_int n)" by (simp add: overflows_def)
  then show ?thesis by (simp add: py_float_def round_binary64_of_int [OF assms])
qed

lemma py_float_zero: "py_float 0 = Inr 0"
  using py_float_exact [of 0] by simp

lemma py_float_nonzero: "k \<noteq> 0 \<Longrightarrow> py_float k = Inr fk \<Longrightarrow> fk \<noteq> 0"
  using round_binary64_of_int_nonzero [of k]
  by (auto simp: py_float_def Let_def split: if_splits)

lemma py_float_error: "py_float n = Inl e \<Longrightarrow> e = OverflowError"
  by (auto simp: py_float_def Let_def split: if_splits)

lemma py_truediv_fraction:
  assumes "0 \<le> c" and "c \<le> k" and "1 \<le> k" and "k \<le> 2 ^ 53"
  shows "py_truediv c (of_int k) = Inr (Fin (round_binary64 (of_int c / of_int k)))"
proof -
  let ?q = "of_int c / of_int k :: rat"
  have c: "py_float c = Inr (of_int c)" using assms by (intro py_float_exact) simp
  have q: "0 \<le> ?q" "?q \<le> 1" using assms by simp_all
  have "\<bar>round_binary64 ?q\<bar> \<le> 1"
    using round_binary64_nonneg [OF q(1)] round_binary64_le_one [OF q] by simp
  also have "(1::rat) < 2 ^ 1024" by simp
  finally have "\<not> overflows (round_binary64 ?q)" by (simp add: overflows_def)
  then show ?thesis using assms(3) by (simp add: py_truediv_def c)
qed

lemma py_truediv_integral:
  assumes "\<bar>n\<bar> \<le> 2 ^ 53" and "y \<noteq> 0" and "of_int n / y = of_int m" and "\<bar>m\<bar> \<le> 2 ^ 53"
  shows "py_truediv n y = Inr (Fin (of_int m))"
proof -
  have "(of_int \<bar>m\<bar> :: rat) \<le> of_int (2 ^ 53)"
    using assms(4) by (simp only: of_int_le_iff)
  then have "\<bar>of_int m :: rat\<bar> \<le> 2 ^ 53" by simp
  also have "\<dots> < 2 ^ 1024" by simp
  finally have "\<not> overflows (of_int m)" by (simp add: overflows_def)
  then show ?thesis
    using assms(2,3)
    by (simp add: py_truediv_def py_float_exact [OF assms(1)] round_binary64_of_int [OF assms(4)])
qed

lemma py_truediv_zero: "py_truediv n 0 \<noteq> Inr p"
  by (simp add: py_truediv_def split: sum.splits)

lemma py_truediv_error:
  "py_truediv n y = Inl e \<Longrightarrow> e = OverflowError \<or> (e = ZeroDivisionError \<and> y = 0)"
  by (auto simp: py_truediv_def Let_def dest: py_float_error split: sum.splits if_splits)

subsection \<open>Binary32 arithmetic\<close>

lemma round_binary32_pos:
  assumes "0 < q"
  shows "round_binary32 q =
           of_int (round_half_even (q * pow2 (min (23 - ilog2 q) 149))) / pow2 (min (23 - ilog2 q) 149)"
  using assms by (simp add: round_binary32_def Let_def)

lemma round_binary32_minus: "round_binary32 (- q) = - round_binary32 q"
  by (simp add: round_binary32_def Let_def sgn_minus)

lemma round_binary32_of_int:
  assumes "\<bar>n\<bar> \<le> 2 ^ 24"
  shows "round_binary32 (of_int n) = of_int n"
proof -
  have pos: "round_binary32 (of_int m) = of_int m" if m: "0 < m" "m \<le> 2 ^ 24" for m :: int
  proof -
    let ?q = "of_int m :: rat"
    have q: "0 < ?q" using m by simp
    have "?q \<le> of_int (2 ^ 24)" using m(2) by (simp only: of_int_le_iff)
    then have "?q \<le> pow2 24" by (simp add: pow2_def)
    then have e24: "ilog2 ?q \<le> 24" using q by (intro ilog2_le)
    have "pow2 0 \<le> ?q" using m(1) by (simp add: pow2_def)
    then have e0: "0 \<le> ilog2 ?q" using q by (intro ilog2_ge)
    have s: "min (23 - ilog2 ?q) 149 = 23 - ilog2 ?q" using e0 by simp
    let ?s = "23 - ilog2 ?q"
    have "\<exists>j. ?q * pow2 ?s = of_int j"
    proof (cases "ilog2 ?q = 24")
      case True
      then have "pow2 24 \<le> ?q" using ilog2_bounds(1) [OF q] by simp
      with \<open>?q \<le> pow2 24\<close> have "?q = pow2 24" by simp
      then have "?q * pow2 ?s = pow2 24 * pow2 (- 1)" using True by simp
      also have "\<dots> = of_int (2 ^ 23)" by (simp add: pow2_def)
      finally show ?thesis by blast
    next
      case False
      with e24 have "0 \<le> ?s" by simp
      then have "?q * pow2 ?s = of_int (m * 2 ^ nat ?s)" by (simp add: pow2_nat)
      then show ?thesis by blast
    qed
    then obtain j where j: "?q * pow2 ?s = of_int j" ..
    have "round_binary32 ?q = of_int (round_half_even (?q * pow2 ?s)) / pow2 ?s"
      by (simp add: round_binary32_pos [OF q] s)
    also have "\<dots> = ?q * pow2 ?s / pow2 ?s" by (simp only: j round_half_even_of_int)
    also have "\<dots> = ?q" using pow2_pos [of ?s] by simp
    finally show ?thesis .
  qed
  consider "n = 0" | "0 < n" | "n < 0" by linarith
  then show ?thesis
  proof cases
    case 1
    then show ?thesis by (simp add: round_binary32_def)
  next
    case 2
    then show ?thesis using pos [of n] assms by simp
  next
    case 3
    then have "round_binary32 (of_int (- n)) = of_int (- n)" using pos [of "- n"] assms by simp
    then show ?thesis using round_binary32_minus [of "of_int n"] by simp
  qed
qed

lemma rnd32_of_int:
  assumes "\<bar>n\<bar> \<le> 2 ^ 24"
  shows "rnd32 (of_int n) = Fin (of_int n)"
proof -
  have "(of_int \<bar>n\<bar> :: rat) \<le> of_int (2 ^ 24)"
    using assms by (simp only: of_int_le_iff)
  then have "\<bar>of_int n :: rat\<bar> \<le> 2 ^ 24" by simp
  also have "\<dots> < 2 ^ 128" by simp
  finally have "\<bar>of_int n :: rat\<bar> < 2 ^ 128" .
  then have "\<not> 2 ^ 128 \<le> (of_int n :: rat)" "\<not> (of_int n :: rat) \<le> - (2 ^ 128)"
    by linarith+
  then show ?thesis by (simp add: rnd32_def round_binary32_of_int [OF assms])
qed

lemma round_binary32_representable:
  assumes m: "0 < m" "m \<le> 2 ^ 24" and s: "s \<le> 149"
  shows "round_binary32 (of_int m / pow2 s) = of_int m / pow2 s"
proof -
  let ?r = "of_int m / pow2 s :: rat"
  have r: "0 < ?r" using m(1) pow2_pos [of s] by simp
  let ?e = "ilog2 ?r"
  let ?t = "min (23 - ?e) 149"
  have "pow2 ?e \<le> ?r" by (rule ilog2_bounds(1) [OF r])
  then have "pow2 ?e * pow2 s \<le> of_int m" using pow2_pos [of s] by (simp add: pos_le_divide_eq)
  then have low: "pow2 (?e + s) \<le> of_int m" by (simp only: pow2_add)
  have "(of_int m :: rat) \<le> of_int (2 ^ 24)" using m(2) by (simp only: of_int_le_iff)
  then have high: "of_int m \<le> pow2 24" by (simp add: pow2_def)
  from low high have "pow2 (?e + s) \<le> pow2 24" by simp
  then have es: "?e + s \<le> 24" by (simp only: pow2_le_iff)
  have "\<exists>j. ?r * pow2 ?t = of_int j"
  proof (cases "s \<le> ?t")
    case True
    then have "pow2 ?t = pow2 s * pow2 (?t - s)" by (simp flip: pow2_add)
    then have "?r * pow2 ?t = of_int m * pow2 (?t - s)" using pow2_pos [of s] by simp
    also have "\<dots> = of_int (m * 2 ^ nat (?t - s))" using True by (simp add: pow2_nat)
    finally show ?thesis by blast
  next
    case False
    with s have t: "?t = 23 - ?e" by simp
    with False es have e: "?e + s = 24" by simp
    with low high have "(of_int m :: rat) = pow2 24" by simp
    moreover have "?t = s + (- 1)" using t e by linarith
    then have "pow2 ?t = pow2 s * pow2 (- 1)" by (simp only: pow2_add)
    ultimately have "?r * pow2 ?t = pow2 24 * pow2 (- 1)" using pow2_pos [of s] by simp
    also have "\<dots> = of_int (2 ^ 23)" by (simp add: pow2_def)
    finally show ?thesis by blast
  qed
  then obtain j where j: "?r * pow2 ?t = of_int j" ..
  have "round_binary32 ?r = of_int (round_half_even (?r * pow2 ?t)) / pow2 ?t"
    by (rule round_binary32_pos [OF r])
  also have "\<dots> = ?r * pow2 ?t / pow2 ?t" by (simp only: j round_half_even_of_int)
  also have "\<dots> = ?r" using pow2_pos [of ?t] by simp
  finally show ?thesis .
qed

lemma round_binary32_idem: "round_binary32 (round_binary32 q) = round_binary32 q"
proof -
  have pos: "round_binary32 (round_binary32 x) = round_binary32 x" if x: "0 < x" for x
  proof -
    let ?s = "min (23 - ilog2 x) 149"
    let ?m = "round_half_even (x * pow2 ?s)"
    have eq: "round_binary32 x = of_int ?m / pow2 ?s" by (rule round_binary32_pos [OF x])
    have "x * pow2 ?s < pow2 (ilog2 x + 1) * pow2 ?s"
      using ilog2_bounds(2) [OF x] pow2_pos [of ?s] by simp
    also have "\<dots> = pow2 (ilog2 x + 1 + ?s)" by (simp only: pow2_add)
    also have "\<dots> \<le> pow2 24" by (rule pow2_mono) simp
    finally have "x * pow2 ?s \<le> of_int (2 ^ 24)" by (simp add: pow2_def)
    then have m24: "?m \<le> 2 ^ 24" by (rule round_half_even_le)
    have "of_int 0 \<le> x * pow2 ?s" using x pow2_pos [of ?s] by simp
    then have m0: "0 \<le> ?m" by (rule round_half_even_ge)
    show ?thesis
    proof (cases "?m = 0")
      case True
      then show ?thesis by (simp add: eq) (simp add: round_binary32_def)
    next
      case False
      with m0 have "0 < ?m" by simp
      from round_binary32_representable [OF this m24, of ?s] show ?thesis by (simp add: eq)
    qed
  qed
  consider "q = 0" | "0 < q" | "q < 0" by linarith
  then show ?thesis
  proof cases
    case 1
    then show ?thesis by (simp add: round_binary32_def)
  next
    case 2
    then show ?thesis by (rule pos)
  next
    case 3
    then have "round_binary32 (round_binary32 (- q)) = round_binary32 (- q)" by (intro pos) simp
    then show ?thesis by (simp add: round_binary32_minus)
  qed
qed

lemma is_float32_rnd32: "is_float32 (rnd32 q)"
  by (simp add: is_float32_def rnd32_def Let_def round_binary32_idem abs_less_iff)

lemma is_float32_fmul32: "is_float32 (fmul32 a b)"
  by (cases a; cases b) (simp_all add: is_float32_rnd32, simp_all add: is_float32_def)




lemma rnd32_zero: "rnd32 0 = Fin 0"
  using rnd32_of_int [of 0] by simp

lemma rnd32_one: "rnd32 1 = Fin 1"
  using rnd32_of_int [of 1] by simp

lemma rnd32_numeral: "numeral n \<le> (2 ^ 24 :: int) \<Longrightarrow> rnd32 (numeral n) = Fin (numeral n)"
  using rnd32_of_int [of "numeral n"] by simp

lemma rnd32_neg_numeral:
  "numeral n \<le> (2 ^ 24 :: int) \<Longrightarrow> rnd32 (- numeral n) = Fin (- numeral n)"
  using rnd32_of_int [of "- numeral n"] by simp

lemma rnd32_neg_one: "rnd32 (- 1) = Fin (- 1)"
  using rnd32_of_int [of "- 1"] by simp

lemmas rnd32_small = rnd32_zero rnd32_one rnd32_neg_one rnd32_numeral rnd32_neg_numeral


subsection \<open>argsort\<close>

lemma stable_argsort_spec: "argsort_spec stable_argsort"
  by (simp add: argsort_spec_def stable_argsort_def)

lemma reverse_argsort_spec: "argsort_spec reverse_argsort"
  by (simp add: argsort_spec_def reverse_argsort_def)

lemma argsort_spec_set: "argsort_spec f \<Longrightarrow> set (f xs) = {0..<length xs}"
  unfolding argsort_spec_def by (metis mset_eq_setD atLeastLessThan_upt)

lemma argsort_spec_distinct: "argsort_spec f \<Longrightarrow> distinct (f xs)"
  unfolding argsort_spec_def by (metis distinct_upt mset_eq_imp_distinct_iff)

lemma argsort_spec_length: "argsort_spec f \<Longrightarrow> length (f xs) = length xs"
  unfolding argsort_spec_def by (metis length_upt mset_eq_length minus_nat.diff_0)

lemma argsort_spec_sorted: "argsort_spec f \<Longrightarrow> sorted (map ((!) xs) (f xs))"
  unfolding argsort_spec_def by blast

lemma argsort_unique:
  assumes "argsort_spec f" and "distinct xs"
  shows "f xs = stable_argsort xs"
proof -
  let ?key = "(!) xs"
  let ?g = "stable_argsort"
  note g = stable_argsort_spec
  have inj: "inj_on ?key {0..<length xs}"
    using assms(2) by (auto simp: inj_on_def nth_eq_iff_index_eq)
  have "map ?key (f xs) = map ?key (?g xs)"
  proof (rule sorted_distinct_set_unique)
    show "sorted (map ?key (f xs))" by (rule argsort_spec_sorted [OF assms(1)])
    show "sorted (map ?key (?g xs))" by (rule argsort_spec_sorted [OF g])
    show "distinct (map ?key (f xs))"
      using inj by (simp add: distinct_map argsort_spec_distinct [OF assms(1)] argsort_spec_set [OF assms(1)])
    show "distinct (map ?key (?g xs))"
      using inj by (simp add: distinct_map argsort_spec_distinct [OF g] argsort_spec_set [OF g])
    show "set (map ?key (f xs)) = set (map ?key (?g xs))"
      by (simp add: argsort_spec_set [OF assms(1)] argsort_spec_set [OF g])
  qed
  moreover have "inj_on ?key (set (f xs) \<union> set (?g xs))"
    using inj by (simp add: argsort_spec_set [OF assms(1)] argsort_spec_set [OF g])
  ultimately show ?thesis by (simp add: inj_on_map_eq_map)
qed

lemma argsort_nth_mono:
  assumes "argsort_spec f" and "p \<le> q" and "q < length xs"
  shows "xs ! (f xs ! p) \<le> xs ! (f xs ! q)"
proof -
  have "sorted (map ((!) xs) (f xs))" by (rule argsort_spec_sorted [OF assms(1)])
  moreover have "q < length (map ((!) xs) (f xs))"
    using assms(3) by (simp add: argsort_spec_length [OF assms(1)])
  ultimately have "map ((!) xs) (f xs) ! p \<le> map ((!) xs) (f xs) ! q"
    using assms(2) by (simp only: sorted_nth_mono)
  then show ?thesis using assms by (simp add: argsort_spec_length [OF assms(1)])
qed

lemma argsort_take_card:
  assumes "argsort_spec f"
  shows "card (set (take m (f xs))) = min m (length xs)"
proof -
  have "distinct (take m (f xs))" using argsort_spec_distinct [OF assms] by (rule distinct_take)
  then have "card (set (take m (f xs))) = length (take m (f xs))" by (rule distinct_card)
  then show ?thesis by (simp add: argsort_spec_length [OF assms] min.commute)
qed

lemma argsort_take_subset:
  assumes "argsort_spec f"
  shows "set (take m (f xs)) \<subseteq> {0..<length xs}"
  using set_take_subset [of m "f xs"] by (simp add: argsort_spec_set [OF assms])

lemma argsort_take_dominates:
  assumes spec: "argsort_spec f" and i: "i \<in> set (take m (f xs))"
    and j: "j < length xs" "j \<notin> set (take m (f xs))"
  shows "xs ! i \<le> xs ! j"
proof -
  let ?o = "f xs"
  have len: "length ?o = length xs" by (rule argsort_spec_length [OF spec])
  from i obtain p where p: "p < length (take m ?o)" "take m ?o ! p = i"
    by (auto simp: in_set_conv_nth)
  then have p': "p < m" "p < length xs" "?o ! p = i" using len by simp_all
  have "j \<in> set ?o" using j(1) by (simp add: argsort_spec_set [OF spec])
  then obtain q where q: "q < length ?o" "?o ! q = j" by (auto simp: in_set_conv_nth)
  have "m \<le> q"
  proof (rule ccontr)
    assume "\<not> m \<le> q"
    then have "q < length (take m ?o)" "take m ?o ! q = j" using q by simp_all
    then have "j \<in> set (take m ?o)" by (metis nth_mem)
    with j(2) show False by contradiction
  qed
  then have "p \<le> q" using p'(1) by simp
  from argsort_nth_mono [OF spec this] q(1) len have "xs ! (?o ! p) \<le> xs ! (?o ! q)" by simp
  then show ?thesis by (simp add: p'(3) q(2))
qed

lemma argsort_take_below:
  assumes spec: "argsort_spec f"
    and enough: "m \<le> card {j. j < length ks \<and> ks ! j < c}"
    and i: "i \<in> set (take m (f ks))"
  shows "ks ! i < c"
proof (rule ccontr)
  assume high: "\<not> ks ! i < c"
  let ?o = "f ks"
  let ?G = "{j. j < length ks \<and> ks ! j < c}"
  have len: "length ?o = length ks" by (rule argsort_spec_length [OF spec])
  from i obtain p where "p < length (take m ?o)" "take m ?o ! p = i"
    by (auto simp: in_set_conv_nth)
  then have p: "p < m" "p < length ks" "?o ! p = i" using len by simp_all
  have "?G \<subseteq> (!) ?o ` {..<p}"
  proof
    fix j
    assume "j \<in> ?G"
    then have j: "j < length ks" "ks ! j < c" by simp_all
    then have "j \<in> set ?o" by (simp add: argsort_spec_set [OF spec])
    then obtain q where q: "q < length ?o" "?o ! q = j" by (auto simp: in_set_conv_nth)
    have "q < p"
    proof (rule ccontr)
      assume "\<not> q < p"
      then have "p \<le> q" by simp
      from argsort_nth_mono [OF spec this] q(1) len have "ks ! (?o ! p) \<le> ks ! (?o ! q)" by simp
      then show False using high j(2) by (simp add: p(3) q(2))
    qed
    then show "j \<in> (!) ?o ` {..<p}" using q(2) by blast
  qed
  then have "card ?G \<le> card ((!) ?o ` {..<p})" by (intro card_mono) simp_all
  also have "\<dots> \<le> card {..<p}" by (rule card_image_le) simp
  finally show False using enough p(1) by simp
qed

subsection \<open>Indexing and item assignment\<close>

lemma np_arange_set: "set (np_arange n) = {0..<n}"
proof -
  have "int ` {0..<nat n} = {0..<n}"
  proof (intro equalityI subsetI)
    fix x assume "x \<in> {0..<n}"
    then have "x = int (nat x)" "nat x \<in> {0..<nat n}" by auto
    then show "x \<in> int ` {0..<nat n}" by blast
  qed auto
  then show ?thesis by (simp add: np_arange_def)
qed

lemma np_arange_length: "length (np_arange n) = nat n"
  by (simp add: np_arange_def)

lemma np_arange_nth: "j < nat n \<Longrightarrow> np_arange n ! j = int j"
  by (simp add: np_arange_def)

lemma np_index_nonneg: "0 \<le> i \<Longrightarrow> np_index n i = Inr j \<Longrightarrow> int j = i"
  by (auto simp: np_index_def split: if_splits)

lemma np_setitem_length: "np_setitem xs idx v = Inr ys \<Longrightarrow> length ys = length xs"
  by (induction xs idx v arbitrary: ys rule: np_setitem.induct) (auto split: sum.splits)

lemma np_setitem_nth:
  assumes "np_setitem xs idx v = Inr ys" and "j < length xs"
  shows "ys ! j = (if \<exists>i \<in> set idx. np_index (length xs) i = Inr j then v else xs ! j)"
  using assms
proof (induction xs idx v arbitrary: ys rule: np_setitem.induct)
  case (1 xs v)
  then show ?case by simp
next
  case (2 xs i idx v)
  from "2.prems"(1) obtain p where p: "np_index (length xs) i = Inr p"
    and rest: "np_setitem (xs[p := v]) idx v = Inr ys"
    by (auto split: sum.splits)
  have "ys ! j = (if \<exists>i \<in> set idx. np_index (length xs) i = Inr j then v else xs[p := v] ! j)"
    using "2.IH" [OF p rest] "2.prems"(2) by simp
  then show ?case using p "2.prems"(2) by (auto simp: nth_list_update)
qed

lemma np_setitem_error: "np_setitem xs idx v = Inl e \<Longrightarrow> e = IndexError"
  by (induction xs idx v rule: np_setitem.induct)
     (auto simp: np_index_def split: sum.splits if_splits)

subsection \<open>Negation and the sort order\<close>

lemma fneg_le_iff: "a \<noteq> NaN \<Longrightarrow> b \<noteq> NaN \<Longrightarrow> fneg a \<le> fneg b \<longleftrightarrow> b \<le> a"
  by (cases a; cases b) (simp_all add: less_eq_score_def)

lemma fneg_less_PInf: "x \<noteq> NaN \<Longrightarrow> x \<noteq> NInf \<Longrightarrow> fneg x < PInf"
  by (cases x) (simp_all add: less_score_def)

subsection \<open>Data frames\<close>

lemma groupby_user_id_keys:
  "map fst (groupby_user_id df) = sorted_list_of_set (user_id ` set df)"
  by (simp add: groupby_user_id_def comp_def sorted_list_of_set_sort_remdups flip: set_map)

lemma groupby_user_id_member:
  assumes "(u, g) \<in> set (groupby_user_id df)"
  shows "g = filter (\<lambda>r. user_id r = u) df" and "u \<in> user_id ` set df"
  using assms by (auto simp: groupby_user_id_def)

lemma groupby_user_id_empty_iff: "groupby_user_id df = [] \<longleftrightarrow> df = []"
  by (simp add: groupby_user_id_def flip: set_empty)

lemma history_filter: "item_id ` set (filter (\<lambda>r. user_id r = u) df) = history df u"
  by (auto simp: history_def)

lemma history_nonempty_iff: "history df u \<noteq> {} \<longleftrightarrow> u \<in> user_id ` set df"
  by (auto simp: history_def)

lemma present_users: "{uid. history df uid \<noteq> {}} = user_id ` set df"
  by (auto simp: history_def)

lemma train_pids_set:
  "set (map item_id (filter (\<lambda>r. user_id r = uid) df)) = history df uid"
  by (auto simp: history_def)

lemma groupby_user_id_histories:
  "(\<Union>ug \<in> set (groupby_user_id test_ratings). history train_ratings (fst ug)) =
   (\<Union>uid \<in> {uid. history test_ratings uid \<noteq> {}}. history train_ratings uid)"
proof -
  have "fst ` set (groupby_user_id test_ratings) = {uid. history test_ratings uid \<noteq> {}}"
    using groupby_user_id_keys [of test_ratings]
    by (simp add: present_users flip: set_map)
  then show ?thesis by (metis (no_types, lifting) UN_extend_simps(10) SUP_cong)
qed

subsection \<open>Embedding tables and the float32 dot product\<close>



















lemma predict_from_latent_fresh: "allocates_fresh (predict_from_latent np_dot)"
  unfolding allocates_fresh_def predict_from_latent_def heap_alloc_def heap_of_def
  by (auto split: sum.splits)

section \<open>Properties of the loop\<close>

subsection \<open>The loop and its body\<close>

lemma user_top_k_InrE:
  assumes "user_top_k argsort model pred_func train_ratings pid_array k uid h = Inr (T, h2)"
  obtains a h1 xs xs' where
    "pred_func model uid pid_array train_ratings h = Inr (a, h1)"
    "heap_get h1 a = Some xs"
    "np_setitem xs (map item_id (filter (\<lambda>r. user_id r = uid) train_ratings)) NInf = Inr xs'"
    "T = int ` set (py_slice_to k (argsort (map fneg xs')))"
    "h2 = h1[a := xs']"
  using assms unfolding user_top_k_def Let_def
  by (auto split: sum.splits option.splits prod.splits)

lemma user_precision_InrE:
  assumes "user_precision argsort model pred_func train_ratings pid_array k uid g h = Inr (p, h2)"
  obtains T fk where
    "user_top_k argsort model pred_func train_ratings pid_array k uid h = Inr (T, h2)"
    "py_float k = Inr fk"
    "py_truediv (int (card (T \<inter> item_id ` set g))) fk = Inr p"
  using assms unfolding user_precision_def Let_def
  by (auto split: sum.splits option.splits prod.splits)

lemma user_precision_top_k:
  assumes "user_precision argsort model pred_func train_ratings pid_array k uid g h = Inr (p, h2)"
  shows "\<exists>T. user_top_k argsort model pred_func train_ratings pid_array k uid h = Inr (T, h2)"
  using assms by (auto elim: user_precision_InrE)

lemma precision_loop_rule:
  assumes "precision_loop body groups acc h = Inr (ps, h')"
    and "P done acc h"
    and "\<And>d vs u g h0 p h1.
           (u, g) \<in> set groups \<Longrightarrow> P d vs h0 \<Longrightarrow> body u g h0 = Inr (p, h1) \<Longrightarrow>
           P (d @ [(u, g)]) (vs @ [p]) h1"
  shows "P (done @ groups) ps h'"
  using assms
proof (induction groups arbitrary: "done" acc h)
  case Nil
  then show ?case by simp
next
  case (Cons ug groups)
  obtain u g where ug: "ug = (u, g)" by (cases ug)
  from Cons.prems(1) obtain p h1 where body: "body u g h = Inr (p, h1)"
    and rest: "precision_loop body groups (acc @ [p]) h1 = Inr (ps, h')"
    by (auto simp: ug split: sum.splits)
  have "P (done @ [(u, g)]) (acc @ [p]) h1"
    using Cons.prems(3) [OF _ Cons.prems(2) body] by (simp add: ug)
  from Cons.IH [OF rest this] Cons.prems(3) show ?case by (simp add: ug)
qed

lemma precision_loop_all2:
  assumes run: "precision_loop body groups [] h = Inr (ps, h')"
    and step: "\<And>u g h0 p h1. (u, g) \<in> set groups \<Longrightarrow> body u g h0 = Inr (p, h1) \<Longrightarrow> Q (u, g) p"
  shows "list_all2 Q groups ps"
proof -
  have "list_all2 Q ([] @ groups) ps"
  proof (rule precision_loop_rule [OF run, where P = "\<lambda>d vs h. list_all2 Q d vs"])
    show "list_all2 Q [] []" by simp
  next
    fix d vs u g h0 p h1
    assume "(u, g) \<in> set groups" "list_all2 Q d vs" "body u g h0 = Inr (p, h1)"
    then show "list_all2 Q (d @ [(u, g)]) (vs @ [p])"
      using step by (simp add: list_all2_appendI)
  qed
  then show ?thesis by simp
qed

text \<open>The result, user by user, in ascending order of the users of the test frame.\<close>

lemma precision_at_k_all2:
  assumes run: "precision_at_k argsort model pred_func train_ratings test_ratings no_users
                  no_items k h = Inr (ps, h')"
    and step: "\<And>uid h0 p h1. uid \<in> user_id ` set test_ratings \<Longrightarrow>
      user_precision argsort model pred_func train_ratings (np_arange no_items) k uid
        (filter (\<lambda>r. user_id r = uid) test_ratings) h0 = Inr (p, h1) \<Longrightarrow> Q uid p"
  shows "list_all2 Q (sorted_list_of_set (user_id ` set test_ratings)) ps"
proof -
  let ?body = "user_precision argsort model pred_func train_ratings (np_arange no_items) k"
  have loop: "precision_loop ?body (groupby_user_id test_ratings) [] h = Inr (ps, h')"
    using run by (simp add: precision_at_k_def)
  have "list_all2 (\<lambda>ug p. Q (fst ug) p) (groupby_user_id test_ratings) ps"
  proof (rule precision_loop_all2 [OF loop])
    fix u g h0 p h1
    assume "(u, g) \<in> set (groupby_user_id test_ratings)" "?body u g h0 = Inr (p, h1)"
    then show "Q (fst (u, g)) p"
      using step [of u h0 p h1] groupby_user_id_member [of u g test_ratings] by simp
  qed
  then have "list_all2 Q (map fst (groupby_user_id test_ratings)) ps"
    by (simp add: list_all2_map1)
  then show ?thesis by (simp only: groupby_user_id_keys)
qed

subsection \<open>Exceptions\<close>

lemma user_top_k_error:
  assumes "user_top_k argsort model pred_func train_ratings pid_array k uid h = Inl (e, h')"
  shows "pred_func model uid pid_array train_ratings h = Inl (e, h') \<or>
         (\<exists>a. pred_func model uid pid_array train_ratings h = Inr (a, h')) \<and>
         (e = TypeError \<or> e = IndexError)"
  using assms unfolding user_top_k_def Let_def
  by (auto dest: np_setitem_error split: sum.splits option.splits prod.splits)

lemma user_precision_error:
  assumes "user_precision argsort model pred_func train_ratings pid_array k uid g h = Inl (e, h')"
  shows "pred_func model uid pid_array train_ratings h = Inl (e, h') \<or> e = TypeError \<or>
         e = IndexError \<or> e = OverflowError \<or> (e = ZeroDivisionError \<and> k = 0)"
proof -
  consider (top) "user_top_k argsort model pred_func train_ratings pid_array k uid h = Inl (e, h')"
    | (float) "py_float k = Inl e"
    | (div) T fk where "py_float k = Inr fk" "py_truediv (int (card (T \<inter> item_id ` set g))) fk = Inl e"
    using assms unfolding user_precision_def Let_def
    by (auto split: sum.splits prod.splits)
  then show ?thesis
  proof cases
    case top
    from user_top_k_error [OF this] show ?thesis by auto
  next
    case float
    from py_float_error [OF this] show ?thesis by simp
  next
    case div
    then show ?thesis using py_truediv_error [OF div(2)] py_float_nonzero [OF _ div(1)] by auto
  qed
qed

lemma precision_loop_error:
  assumes "precision_loop body groups acc h = Inl e"
  shows "\<exists>u g h0. (u, g) \<in> set groups \<and> body u g h0 = Inl e"
  using assms
proof (induction groups arbitrary: acc h)
  case Nil
  then show ?case by simp
next
  case (Cons ug groups)
  obtain u g where ug: "ug = (u, g)" by (cases ug)
  show ?case
  proof (cases "body u g h")
    case (Inl e')
    then show ?thesis using Cons.prems by (auto simp: ug)
  next
    case (Inr r)
    then obtain p h1 where "body u g h = Inr (p, h1)" by (cases r) simp
    with Cons.prems have "precision_loop body groups (acc @ [p]) h1 = Inl e" by (simp add: ug)
    from Cons.IH [OF this] show ?thesis by auto
  qed
qed

lemma user_precision_zero_k:
  "user_precision argsort model pred_func train_ratings pid_array 0 uid g h \<noteq> Inr r"
proof
  assume "user_precision argsort model pred_func train_ratings pid_array 0 uid g h = Inr r"
  then obtain T fk where "py_float 0 = Inr fk"
    and "py_truediv (int (card (T \<inter> item_id ` set g))) fk = Inr (fst r)"
    by (cases r) (auto elim: user_precision_InrE)
  then show False using py_truediv_zero by (simp add: py_float_zero)
qed

subsection \<open>The masked scores and the top-k set\<close>

lemma np_setitem_spec_masked:
  assumes set: "np_setitem xs idx NInf = Inr xs'"
    and nonneg: "\<And>i. i \<in> set idx \<Longrightarrow> 0 \<le> i"
  shows "xs' = spec_masked xs (set idx)"
proof (rule nth_equalityI)
  show "length xs' = length (spec_masked xs (set idx))"
    using np_setitem_length [OF set] by (simp add: spec_masked_def)
next
  fix j
  assume "j < length xs'"
  then have j: "j < length xs" using np_setitem_length [OF set] by simp
  have "(\<exists>i \<in> set idx. np_index (length xs) i = Inr j) \<longleftrightarrow> int j \<in> set idx"
  proof
    assume "\<exists>i \<in> set idx. np_index (length xs) i = Inr j"
    then obtain i where i: "i \<in> set idx" "np_index (length xs) i = Inr j" by blast
    then have "int j = i" using nonneg [OF i(1)] by (intro np_index_nonneg)
    with i(1) show "int j \<in> set idx" by simp
  next
    assume "int j \<in> set idx"
    moreover have "np_index (length xs) (int j) = Inr j" using j by (simp add: np_index_def)
    ultimately show "\<exists>i \<in> set idx. np_index (length xs) i = Inr j" by blast
  qed
  then show "xs' ! j = spec_masked xs (set idx) ! j"
    using np_setitem_nth [OF set j] j by (simp add: spec_masked_def)
qed

lemma spec_masked_length: "length (spec_masked xs seen) = length xs"
  by (simp add: spec_masked_def)

lemma spec_masked_nth:
  "j < length xs \<Longrightarrow> spec_masked xs seen ! j = (if int j \<in> seen then NInf else xs ! j)"
  by (simp add: spec_masked_def)

lemma spec_masked_no_NaN: "NaN \<notin> set xs \<Longrightarrow> j < length xs \<Longrightarrow> spec_masked xs seen ! j \<noteq> NaN"
  by (metis nth_mem score.distinct(5) spec_masked_nth)

lemma top_k_is_spec_top_k:
  assumes spec: "argsort_spec argsort" and k: "0 \<le> k" and nonan: "NaN \<notin> set xs"
  shows "spec_top_k (length xs) (spec_masked xs seen) k
           (int ` set (py_slice_to k (argsort (map fneg (spec_masked xs seen)))))"
proof -
  let ?m = "spec_masked xs seen"
  let ?keys = "map fneg ?m"
  let ?S = "set (take (nat k) (argsort ?keys))"
  have len: "length ?keys = length xs" by (simp add: spec_masked_length)
  have slice: "py_slice_to k (argsort ?keys) = take (nat k) (argsort ?keys)"
    using k by (simp add: py_slice_to_def)
  have sub: "?S \<subseteq> {0..<length xs}"
    using argsort_take_subset [OF spec, of "nat k" ?keys] by (simp only: len)
  have card: "card (int ` ?S) = min (nat k) (length xs)"
    using argsort_take_card [OF spec, of "nat k" ?keys]
    by (simp only: len card_image [OF inj_on_subset [OF inj_of_nat subset_UNIV]])
  have dom: "?m ! nat j \<le> ?m ! nat i" if i: "i \<in> int ` ?S" and j: "j \<in> int ` {0..<length xs} - int ` ?S"
    for i j
  proof -
    from i obtain i0 where i0: "i0 \<in> ?S" "i = int i0" by blast
    from j obtain j0 where "j0 < length xs" "j = int j0" "int j0 \<notin> int ` ?S" by auto
    then have j0: "j0 < length xs" "j = int j0" "j0 \<notin> ?S" by blast+
    have i0': "i0 < length xs" using sub i0(1) by auto
    have "?keys ! i0 \<le> ?keys ! j0"
      using argsort_take_dominates [OF spec i0(1), of j0] j0 by (simp only: len) simp
    then have "fneg (?m ! i0) \<le> fneg (?m ! j0)"
      using i0' j0(1) by (simp add: spec_masked_length)
    then have "?m ! j0 \<le> ?m ! i0"
      using spec_masked_no_NaN [OF nonan i0'] spec_masked_no_NaN [OF nonan j0(1)]
      by (simp add: fneg_le_iff)
    then show ?thesis by (simp add: i0(2) j0(2))
  qed
  show ?thesis
    unfolding spec_top_k_def slice using sub card dom by auto
qed

lemma user_top_k_yields:
  assumes spec: "argsort_spec argsort" and k: "0 \<le> k"
    and yields: "\<And>a h1. pred_func model uid pid_array train_ratings h = Inr (a, h1) \<Longrightarrow>
                   heap_get h1 a = Some xs"
    and nonan: "NaN \<notin> set xs"
    and ids: "\<And>r. r \<in> set train_ratings \<Longrightarrow> 0 \<le> item_id r"
    and run: "user_top_k argsort model pred_func train_ratings pid_array k uid h = Inr (T, h2)"
  shows "spec_top_k (length xs) (spec_masked xs (history train_ratings uid)) k T"
proof -
  let ?idx = "map item_id (filter (\<lambda>r. user_id r = uid) train_ratings)"
  from run obtain a h1 ys xs' where call: "pred_func model uid pid_array train_ratings h = Inr (a, h1)"
    and ys: "heap_get h1 a = Some ys"
    and set: "np_setitem ys ?idx NInf = Inr xs'"
    and T: "T = int ` set (py_slice_to k (argsort (map fneg xs')))"
    by (rule user_top_k_InrE)
  have "ys = xs" using yields [OF call] ys by simp
  moreover have "xs' = spec_masked ys (set ?idx)"
    using set ids by (intro np_setitem_spec_masked) auto
  ultimately have "xs' = spec_masked xs (history train_ratings uid)"
    by (simp only: train_pids_set)
  then show ?thesis using top_k_is_spec_top_k [OF spec k nonan] T by simp
qed

lemma user_top_k_card:
  assumes "0 \<le> k"
    and "user_top_k argsort model pred_func train_ratings pid_array k uid h = Inr (T, h2)"
  shows "finite T" and "int (card T) \<le> k"
proof -
  from assms(2) obtain xs' where T: "T = int ` set (py_slice_to k (argsort (map fneg xs')))"
    by (rule user_top_k_InrE)
  let ?l = "take (nat k) (argsort (map fneg xs'))"
  have T': "T = int ` set ?l" using T assms(1) by (simp add: py_slice_to_def)
  then show "finite T" by simp
  have "card T \<le> card (set ?l)" unfolding T' by (rule card_image_le) simp
  also have "\<dots> \<le> length ?l" by (rule card_length)
  also have "\<dots> \<le> nat k" by simp
  finally show "int (card T) \<le> k" using assms(1) by simp
qed

lemma top_k_excludes_masked:
  assumes spec: "argsort_spec argsort" and k: "0 \<le> k"
    and enough: "nat k \<le> card {j. j < length xs \<and> int j \<notin> seen \<and> xs ! j \<noteq> NaN \<and> xs ! j \<noteq> NInf}"
  shows "int ` set (py_slice_to k (argsort (map fneg (spec_masked xs seen)))) \<inter> seen = {}"
proof -
  let ?m = "spec_masked xs seen"
  let ?keys = "map fneg ?m"
  let ?G = "{j. j < length xs \<and> int j \<notin> seen \<and> xs ! j \<noteq> NaN \<and> xs ! j \<noteq> NInf}"
  let ?B = "{j. j < length ?keys \<and> ?keys ! j < PInf}"
  have len: "length ?keys = length xs" by (simp add: spec_masked_length)
  have "?G \<subseteq> ?B"
    by (auto simp: spec_masked_length spec_masked_nth fneg_less_PInf)
  then have "card ?G \<le> card ?B" by (intro card_mono) simp_all
  with enough have enough': "nat k \<le> card ?B" by simp
  have "int i \<notin> seen" if i: "i \<in> set (take (nat k) (argsort ?keys))" for i
  proof
    assume seen: "int i \<in> seen"
    have "i < length xs" using argsort_take_subset [OF spec, of "nat k" ?keys] i len by auto
    then have "?keys ! i = PInf" using seen by (simp add: spec_masked_length spec_masked_nth)
    moreover have "?keys ! i < PInf" by (rule argsort_take_below [OF spec enough' i])
    ultimately show False by simp
  qed
  then show ?thesis using k by (auto simp: py_slice_to_def)
qed

lemma user_top_k_excludes_seen:
  assumes spec: "argsort_spec argsort" and k: "0 \<le> k"
    and yields: "\<And>a h1. pred_func model uid pid_array train_ratings h = Inr (a, h1) \<Longrightarrow>
                   heap_get h1 a = Some xs"
    and ids: "\<And>r. r \<in> set train_ratings \<Longrightarrow> 0 \<le> item_id r"
    and enough: "nat k \<le> card {j. j < length xs \<and> int j \<notin> history train_ratings uid \<and>
                                  xs ! j \<noteq> NaN \<and> xs ! j \<noteq> NInf}"
    and run: "user_top_k argsort model pred_func train_ratings pid_array k uid h = Inr (T, h2)"
  shows "T \<inter> history train_ratings uid = {}"
proof -
  let ?idx = "map item_id (filter (\<lambda>r. user_id r = uid) train_ratings)"
  from run obtain a h1 ys xs' where call: "pred_func model uid pid_array train_ratings h = Inr (a, h1)"
    and ys: "heap_get h1 a = Some ys"
    and set: "np_setitem ys ?idx NInf = Inr xs'"
    and T: "T = int ` set (py_slice_to k (argsort (map fneg xs')))"
    by (rule user_top_k_InrE)
  have "ys = xs" using yields [OF call] ys by simp
  moreover have "xs' = spec_masked ys (set ?idx)"
    using set ids by (intro np_setitem_spec_masked) auto
  ultimately have "xs' = spec_masked xs (history train_ratings uid)"
    by (simp only: train_pids_set)
  then show ?thesis using top_k_excludes_masked [OF spec k enough] T by simp
qed

lemma spec_top_k_items_of_positions:
  assumes "spec_top_k (nat n) (spec_masked (map f (np_arange n)) seen) k T"
  shows "spec_top_k_items n (spec_masked_score f seen) k T"
proof -
  let ?m = "spec_masked (map f (np_arange n)) seen"
  have img: "int ` {0..<nat n} = {0..<n}"
    using np_arange_set [of n] by (simp add: np_arange_def)
  have nth: "?m ! nat j = spec_masked_score f seen j" if "j \<in> {0..<n}" for j
    using that by (simp add: spec_masked_nth np_arange_length np_arange_nth spec_masked_score_def)
  from assms have T: "T \<subseteq> {0..<n}" and card: "card T = min (nat k) (nat n)"
    and dom: "\<forall>i \<in> T. \<forall>j \<in> {0..<n} - T. ?m ! nat j \<le> ?m ! nat i"
    by (simp_all add: spec_top_k_def img)
  have "spec_masked_score f seen j \<le> spec_masked_score f seen i"
    if "i \<in> T" "j \<in> {0..<n} - T" for i j
  proof -
    have "i \<in> {0..<n}" "j \<in> {0..<n}" using that T by auto
    then show ?thesis using dom that by (simp flip: nth)
  qed
  with T card show ?thesis by (simp add: spec_top_k_items_def)
qed

lemma spec_top_k_items_unique:
  assumes T: "spec_top_k_items n f k T" and T': "spec_top_k_items n f k T'"
    and strict: "\<forall>i \<in> T. \<forall>j \<in> {0..<n} - T. f j < f i"
  shows "T' = T"
proof -
  have fin: "finite T" "finite T'"
    using T T' by (auto simp: spec_top_k_items_def intro: finite_subset)
  have card: "card T' = card T" using T T' by (simp add: spec_top_k_items_def)
  have "T' \<subseteq> T"
  proof (rule ccontr)
    assume "\<not> T' \<subseteq> T"
    then obtain i where i: "i \<in> T'" "i \<notin> T" by blast
    have "\<not> T \<subseteq> T'"
    proof
      assume "T \<subseteq> T'"
      with fin card have "T = T'" by (simp add: card_subset_eq)
      with i show False by simp
    qed
    then obtain j where j: "j \<in> T" "j \<notin> T'" by blast
    have range: "i \<in> {0..<n}" "j \<in> {0..<n}"
      using i(1) j(1) T T' by (auto simp: spec_top_k_items_def)
    have "f j \<le> f i" using T' i(1) j(2) range(2) by (simp add: spec_top_k_items_def)
    moreover have "f i < f j" using strict j(1) i(2) range(1) by simp
    ultimately show False by simp
  qed
  with fin card show ?thesis by (simp add: card_subset_eq)
qed

subsection \<open>Runs that return\<close>

lemma np_setitem_returns:
  assumes "\<And>i. i \<in> set idx \<Longrightarrow> 0 \<le> i \<and> i < int (length xs)"
  shows "\<exists>xs'. np_setitem xs idx v = Inr xs'"
  using assms
proof (induction xs idx v rule: np_setitem.induct)
  case (1 xs v)
  then show ?case by simp
next
  case (2 xs i idx v)
  have i: "np_index (length xs) i = Inr (nat i)"
    using "2.prems" [of i] by (simp add: np_index_def)
  have "\<exists>xs'. np_setitem (xs[nat i := v]) idx v = Inr xs'"
    using "2.IH" [OF i] "2.prems" by simp
  then show ?case by (simp add: i)
qed

lemma user_precision_returns:
  assumes k: "1 \<le> k" "k \<le> 2 ^ 53"
    and call: "pred_func model uid pid_array train_ratings h = Inr (a, h1)"
    and xs: "heap_get h1 a = Some xs"
    and ids: "\<And>r. r \<in> set train_ratings \<Longrightarrow> 0 \<le> item_id r \<and> item_id r < int (length xs)"
  shows "\<exists>p h2. user_precision argsort model pred_func train_ratings pid_array k uid g h = Inr (p, h2)"
proof -
  let ?idx = "map item_id (filter (\<lambda>r. user_id r = uid) train_ratings)"
  have "\<exists>xs'. np_setitem xs ?idx NInf = Inr xs'"
    using ids by (intro np_setitem_returns) auto
  then obtain xs' where set: "np_setitem xs ?idx NInf = Inr xs'" ..
  define T where "T = int ` set (py_slice_to k (argsort (map fneg xs')))"
  have top: "user_top_k argsort model pred_func train_ratings pid_array k uid h =
               Inr (T, h1[a := xs'])"
    by (simp add: user_top_k_def call xs set T_def)
  have T: "finite T" "int (card T) \<le> k" using user_top_k_card [OF _ top] k(1) by simp_all
  have "card (T \<inter> item_id ` set g) \<le> card T" using T(1) by (intro card_mono) simp_all
  then have c: "0 \<le> int (card (T \<inter> item_id ` set g))" "int (card (T \<inter> item_id ` set g)) \<le> k"
    using T(2) by simp_all
  have fk: "py_float k = Inr (of_int k)" using py_float_exact [of k] k by simp
  show ?thesis
    by (simp add: user_precision_def top fk py_truediv_fraction [OF c k])
qed

lemma precision_loop_returns:
  assumes "\<And>u g h0. (u, g) \<in> set groups \<Longrightarrow> \<exists>p h1. body u g h0 = Inr (p, h1)"
  shows "\<exists>ps h'. precision_loop body groups acc h = Inr (ps, h')"
  using assms
proof (induction groups arbitrary: acc h)
  case Nil
  then show ?case by simp
next
  case (Cons ug groups)
  obtain u g where ug: "ug = (u, g)" by (cases ug)
  from Cons.prems [of u g h] obtain p h1 where body: "body u g h = Inr (p, h1)"
    by (auto simp: ug)
  have "\<exists>ps h'. precision_loop body groups (acc @ [p]) h1 = Inr (ps, h')"
    by (rule Cons.IH) (use Cons.prems in auto)
  then show ?case by (simp add: ug body)
qed

lemma precision_at_k_returns:
  assumes k: "1 \<le> k" "k \<le> 2 ^ 53"
    and scores: "\<And>uid pids h0. uid \<in> user_id ` set test_ratings \<Longrightarrow> set pids \<subseteq> {0..<no_items} \<Longrightarrow>
        \<exists>a h1. pred_func model uid pids train_ratings h0 = Inr (a, h1) \<and>
               heap_get h1 a = Some (map (score uid) pids)"
    and ids: "\<And>r. r \<in> set train_ratings \<Longrightarrow> 0 \<le> item_id r \<and> item_id r < no_items"
  shows "\<exists>precisions h'.
           precision_at_k argsort model pred_func train_ratings test_ratings no_users no_items k h =
             Inr (precisions, h')"
  unfolding precision_at_k_def Let_def
proof (rule precision_loop_returns)
  fix u g h0
  assume "(u, g) \<in> set (groupby_user_id test_ratings)"
  then have u: "u \<in> user_id ` set test_ratings" using groupby_user_id_member by blast
  have "set (np_arange no_items) \<subseteq> {0..<no_items}" by (simp add: np_arange_set)
  from scores [OF u this, of h0] obtain a h1 where
    call: "pred_func model u (np_arange no_items) train_ratings h0 = Inr (a, h1)"
    and xs: "heap_get h1 a = Some (map (score u) (np_arange no_items))"
    by blast
  have range: "0 \<le> item_id r \<and> item_id r < int (length (map (score u) (np_arange no_items)))"
    if "r \<in> set train_ratings" for r
    using ids [OF that] by (simp add: np_arange_length)
  show "\<exists>p h1. user_precision argsort model pred_func train_ratings (np_arange no_items) k u g h0 =
                 Inr (p, h1)"
    using k call xs range
    by (rule user_precision_returns [where pred_func = pred_func and model = model
          and xs = "map (score u) (np_arange no_items)"])
qed

lemma precision_at_k_value_of_run:
  assumes spec: "argsort_spec argsort"
    and k: "1 \<le> k" "k \<le> 2 ^ 53"
    and scores: "\<And>uid pids h0. uid \<in> user_id ` set test_ratings \<Longrightarrow> set pids \<subseteq> {0..<no_items} \<Longrightarrow>
        \<exists>a h1. pred_func model uid pids train_ratings h0 = Inr (a, h1) \<and>
               heap_get h1 a = Some (map (score uid) pids)"
    and nonan: "\<And>uid pid. uid \<in> user_id ` set test_ratings \<Longrightarrow> 0 \<le> pid \<Longrightarrow> pid < no_items \<Longrightarrow>
        score uid pid \<noteq> NaN"
    and ids: "\<And>r. r \<in> set train_ratings \<Longrightarrow> 0 \<le> item_id r"
    and run: "precision_at_k argsort model pred_func train_ratings test_ratings no_users
                no_items k h = Inr (precisions, h')"
  shows "list_all2
           (\<lambda>uid p. \<exists>T. spec_top_k_items no_items
                            (spec_masked_score (score uid) (history train_ratings uid)) k T \<and>
                          p = Fin (round_binary64
                                     (of_nat (card (T \<inter> history test_ratings uid)) / of_int k)))
           (sorted_list_of_set {uid. history test_ratings uid \<noteq> {}}) precisions"
  unfolding present_users
proof (rule precision_at_k_all2 [OF run])
  fix uid h0 p h1
  let ?g = "filter (\<lambda>r. user_id r = uid) test_ratings"
  let ?xs = "map (score uid) (np_arange no_items)"
  let ?m = "spec_masked ?xs (history train_ratings uid)"
  assume uid: "uid \<in> user_id ` set test_ratings"
  assume "user_precision argsort model pred_func train_ratings (np_arange no_items) k uid ?g h0 =
            Inr (p, h1)"
  then obtain T fk where top: "user_top_k argsort model pred_func train_ratings
        (np_arange no_items) k uid h0 = Inr (T, h1)"
    and fk: "py_float k = Inr fk"
    and div: "py_truediv (int (card (T \<inter> item_id ` set ?g))) fk = Inr p"
    by (rule user_precision_InrE)
  have sub: "set (np_arange no_items) \<subseteq> {0..<no_items}" by (simp add: np_arange_set)
  have yields: "heap_get g1 a = Some ?xs"
    if "pred_func model uid (np_arange no_items) train_ratings h0 = Inr (a, g1)" for a g1
    using scores [OF uid sub, of h0] that by auto
  have nonan': "NaN \<notin> set ?xs"
  proof
    assume "NaN \<in> set ?xs"
    then obtain pid where "pid \<in> {0..<no_items}" "score uid pid = NaN"
      by (auto simp: np_arange_set)
    then show False using nonan [OF uid, of pid] by simp
  qed
  have "spec_top_k (length ?xs) ?m k T"
    using k(1) by (intro user_top_k_yields [OF spec _ yields nonan' ids top]) simp_all
  then have "spec_top_k (nat no_items) ?m k T" by (simp only: length_map np_arange_length)
  then have T: "spec_top_k_items no_items
      (spec_masked_score (score uid) (history train_ratings uid)) k T"
    by (rule spec_top_k_items_of_positions)
  have hits: "0 \<le> int (card (T \<inter> H))" "int (card (T \<inter> H)) \<le> k" for H
  proof -
    have "finite T" using T by (auto simp: spec_top_k_items_def intro: finite_subset)
    then have "card (T \<inter> H) \<le> card T" by (intro card_mono) simp_all
    moreover have "card T = min (nat k) (nat no_items)" using T by (simp add: spec_top_k_items_def)
    ultimately show "int (card (T \<inter> H)) \<le> k" using k(1) by linarith
  qed simp
  have "fk = of_int k" using fk py_float_exact [of k] k by simp
  then have "p = Fin (round_binary64 (of_int (int (card (T \<inter> history test_ratings uid))) / of_int k))"
    using div py_truediv_fraction [OF hits k]
    by (auto simp add: history_def)
  with T show "\<exists>T. spec_top_k_items no_items
                    (spec_masked_score (score uid) (history train_ratings uid)) k T \<and>
                 p = Fin (round_binary64 (of_nat (card (T \<inter> history test_ratings uid)) / of_int k))"
    by auto
qed

subsection \<open>Independence of the heap\<close>

lemma returned_cases:
  assumes "returned r1 = returned r2"
  obtains (raise) e g1 g2 where "r1 = Inl (e, g1)" "r2 = Inl (e, g2)"
    | (return) a1 h1 a2 h2 where "r1 = Inr (a1, h1)" "r2 = Inr (a2, h2)"
        "heap_get h1 a1 = heap_get h2 a2"
  using assms by (cases r1; cases r2) (auto simp: returned_def split: prod.splits)

lemma user_top_k_deterministic:
  assumes "returned (pred_func model uid pid_array train_ratings h1) =
           returned (pred_func model uid pid_array train_ratings h2)"
  shows "result_of (user_top_k argsort model pred_func train_ratings pid_array k uid h1) =
         result_of (user_top_k argsort model pred_func train_ratings pid_array k uid h2)"
  using assms
proof (cases rule: returned_cases)
  case (raise e g1 g2)
  then show ?thesis by (simp add: user_top_k_def result_of_def)
next
  case (return a1 g1 a2 g2)
  then show ?thesis
    by (simp add: user_top_k_def result_of_def split: option.splits sum.splits)
qed

lemma user_precision_deterministic:
  assumes "returned (pred_func model uid pid_array train_ratings h1) =
           returned (pred_func model uid pid_array train_ratings h2)"
  shows "result_of (user_precision argsort model pred_func train_ratings pid_array k uid g h1) =
         result_of (user_precision argsort model pred_func train_ratings pid_array k uid g h2)"
proof -
  let ?t1 = "user_top_k argsort model pred_func train_ratings pid_array k uid h1"
  let ?t2 = "user_top_k argsort model pred_func train_ratings pid_array k uid h2"
  have "result_of ?t1 = result_of ?t2"
    using assms by (rule user_top_k_deterministic)
  then show ?thesis
    by (cases ?t1; cases ?t2)
       (auto simp: user_precision_def result_of_def split: sum.splits)
qed

lemma precision_loop_deterministic:
  assumes "\<And>u g h1 h2. (u, g) \<in> set groups \<Longrightarrow>
             result_of (body u g h1) = result_of (body u g h2)"
  shows "result_of (precision_loop body groups acc h1) =
         result_of (precision_loop body groups acc h2)"
  using assms
proof (induction groups arbitrary: acc h1 h2)
  case Nil
  then show ?case by (simp add: result_of_def)
next
  case (Cons ug groups)
  obtain u g where ug: "ug = (u, g)" by (cases ug)
  have step: "result_of (body u g h1) = result_of (body u g h2)"
    by (rule Cons.prems) (simp add: ug)
  have rest: "result_of (precision_loop body groups acc' g1) =
              result_of (precision_loop body groups acc' g2)" for acc' g1 g2
    using Cons.IH Cons.prems by simp
  show ?case
  proof (cases "body u g h1")
    case (Inl r1)
    then obtain e g1 where r1: "body u g h1 = Inl (e, g1)" by (cases r1) simp
    with step obtain g2 where r2: "body u g h2 = Inl (e, g2)"
      by (cases "body u g h2") (auto simp: result_of_def)
    show ?thesis by (simp add: ug r1 r2 result_of_def)
  next
    case (Inr r1)
    then obtain p g1 where r1: "body u g h1 = Inr (p, g1)" by (cases r1) simp
    with step obtain g2 where r2: "body u g h2 = Inr (p, g2)"
      by (cases "body u g h2") (auto simp: result_of_def)
    show ?thesis using rest [of "acc @ [p]" g1 g2] by (simp add: ug r1 r2)
  qed
qed

lemma list_all2_functional:
  assumes "list_all2 Q xs ys" and "list_all2 Q xs zs"
    and "\<And>x y z. x \<in> set xs \<Longrightarrow> Q x y \<Longrightarrow> Q x z \<Longrightarrow> y = z"
  shows "ys = zs"
  using assms
proof (induction xs ys arbitrary: zs rule: list_all2_induct)
  case Nil
  then show ?case by simp
next
  case (Cons x xs y ys)
  from Cons.prems(1) obtain z zs' where zs: "zs = z # zs'" "Q x z" "list_all2 Q xs zs'"
    by (cases zs) auto
  have "y = z" using Cons.prems(2) [of x y z] Cons.hyps(1) zs(2) by simp
  moreover have "ys = zs'" by (rule Cons.IH [OF zs(3)]) (use Cons.prems(2) in auto)
  ultimately show ?case by (simp add: zs(1))
qed

lemma precision_at_k_same_heapless:
  assumes ind: "heap_independent pred_func model train_ratings (user_id ` set test_ratings) no_items"
  shows "result_of
           (precision_at_k argsort model pred_func train_ratings test_ratings no_users no_items k h1) =
         result_of
           (precision_at_k argsort model pred_func train_ratings test_ratings no_users no_items k h2)"
  unfolding precision_at_k_def Let_def
proof (rule precision_loop_deterministic)
  fix u g g1 g2
  assume "(u, g) \<in> set (groupby_user_id test_ratings)"
  then have u: "u \<in> user_id ` set test_ratings" using groupby_user_id_member by blast
  have "set (np_arange no_items) \<subseteq> {0..<no_items}" by (simp add: np_arange_set)
  with ind u have "returned (pred_func model u (np_arange no_items) train_ratings g1) =
                   returned (pred_func model u (np_arange no_items) train_ratings g2)"
    unfolding heap_independent_def by blast
  then show "result_of
          (user_precision argsort model pred_func train_ratings (np_arange no_items) k u g g1) =
        result_of
          (user_precision argsort model pred_func train_ratings (np_arange no_items) k u g g2)"
    by (rule user_precision_deterministic)
qed

lemma precision_at_k_any_argsort:
  assumes spec: "argsort_spec argsort1" "argsort_spec argsort2"
    and k: "1 \<le> k" "k \<le> 2 ^ 53"
    and sc: "scores_candidates pred_func model train_ratings (user_id ` set test_ratings)
               no_items score"
    and ids: "\<And>r. r \<in> set train_ratings \<Longrightarrow> 0 \<le> item_id r \<and> item_id r < no_items"
    and untied: "\<And>uid. uid \<in> user_id ` set test_ratings \<Longrightarrow>
        untied_top_k no_items (spec_masked_score (score uid) (history train_ratings uid)) k"
  shows "\<exists>precisions h1' h2'.
           precision_at_k argsort1 model pred_func train_ratings test_ratings no_users no_items k h1 =
             Inr (precisions, h1') \<and>
           precision_at_k argsort2 model pred_func train_ratings test_ratings no_users no_items k h2 =
             Inr (precisions, h2')"
proof -
  let ?users = "sorted_list_of_set {uid. history test_ratings uid \<noteq> {}}"
  let ?m = "\<lambda>uid. spec_masked_score (score uid) (history train_ratings uid)"
  let ?Q = "\<lambda>uid p. \<exists>T. spec_top_k_items no_items (?m uid) k T \<and>
      p = Fin (round_binary64 (of_nat (card (T \<inter> history test_ratings uid)) / of_int k))"
  have scores: "\<exists>a h1. pred_func model uid pids train_ratings h0 = Inr (a, h1) \<and>
                  heap_get h1 a = Some (map (score uid) pids)"
    if "uid \<in> user_id ` set test_ratings" "set pids \<subseteq> {0..<no_items}" for uid pids h0
    using sc that unfolding scores_candidates_def by blast
  have nonan: "score uid pid \<noteq> NaN"
    if "uid \<in> user_id ` set test_ratings" "0 \<le> pid" "pid < no_items" for uid pid
  proof -
    from sc that(1) have "\<forall>pid \<in> {0..<no_items}. score uid pid \<noteq> NaN"
      unfolding scores_candidates_def by blast
    with that(2,3) show ?thesis by simp
  qed
  have ids0: "0 \<le> item_id r" if "r \<in> set train_ratings" for r using ids [OF that] by simp
  from precision_at_k_returns [where pred_func = pred_func and model = model and score = score
      and argsort = argsort1 and h = h1, OF k scores ids]
  obtain ps1 h1' where run1: "precision_at_k argsort1 model pred_func train_ratings test_ratings
      no_users no_items k h1 = Inr (ps1, h1')"
    by blast
  from precision_at_k_returns [where pred_func = pred_func and model = model and score = score
      and argsort = argsort2 and h = h2, OF k scores ids]
  obtain ps2 h2' where run2: "precision_at_k argsort2 model pred_func train_ratings test_ratings
      no_users no_items k h2 = Inr (ps2, h2')"
    by blast
  have v1: "list_all2 ?Q ?users ps1"
    by (rule precision_at_k_value_of_run [where pred_func = pred_func and model = model
          and score = score, OF spec(1) k scores nonan ids0 run1])
  have v2: "list_all2 ?Q ?users ps2"
    by (rule precision_at_k_value_of_run [where pred_func = pred_func and model = model
          and score = score, OF spec(2) k scores nonan ids0 run2])
  have "ps1 = ps2"
  proof (rule list_all2_functional [OF v1 v2])
    fix uid p q
    assume "uid \<in> set ?users"
    then have uid: "uid \<in> user_id ` set test_ratings" by (simp add: present_users)
    assume "?Q uid p" "?Q uid q"
    then obtain T1 T2 where
      T1: "spec_top_k_items no_items (?m uid) k T1"
        "p = Fin (round_binary64 (of_nat (card (T1 \<inter> history test_ratings uid)) / of_int k))"
      and T2: "spec_top_k_items no_items (?m uid) k T2"
        "q = Fin (round_binary64 (of_nat (card (T2 \<inter> history test_ratings uid)) / of_int k))"
      by blast
    from untied [OF uid] obtain T where T: "T \<subseteq> {0..<no_items}"
      "card T = min (nat k) (nat no_items)"
      "\<forall>i \<in> T. \<forall>j \<in> {0..<no_items} - T. ?m uid j < ?m uid i"
      unfolding untied_top_k_def by blast
    then have top: "spec_top_k_items no_items (?m uid) k T"
      by (auto simp: spec_top_k_items_def intro: less_imp_le)
    have "T1 = T" "T2 = T"
      using spec_top_k_items_unique [OF top T1(1) T(3)] spec_top_k_items_unique [OF top T2(1) T(3)]
      by simp_all
    with T1(2) T2(2) show "p = q" by simp
  qed
  with run1 run2 show ?thesis by blast
qed

subsection \<open>Writes to the heap\<close>

lemma np_setitem_overwritten:
  assumes "np_setitem xs idx NInf = Inr xs'"
  shows "overwritten xs (set idx) xs'"
  using np_setitem_length [OF assms] np_setitem_nth [OF assms]
  by (simp add: overwritten_def)

lemma overwritten_refl: "overwritten xs {} xs"
  by (simp add: overwritten_def)

lemma overwritten_trans:
  assumes "overwritten xs S ys" and "overwritten ys S' zs"
  shows "overwritten xs (S \<union> S') zs"
  using assms by (auto simp: overwritten_def)

lemma only_changed_at_refl: "only_changed_at a h h"
  by (simp add: only_changed_at_def)

lemma only_changed_at_update: "only_changed_at a h (h[a := xs])"
  by (simp add: only_changed_at_def heap_get_def)

lemma only_changed_at_trans:
  "only_changed_at a h h1 \<Longrightarrow> only_changed_at a h1 h2 \<Longrightarrow> only_changed_at a h h2"
  by (simp add: only_changed_at_def)

lemma heap_get_update: "heap_get h a = Some xs \<Longrightarrow> heap_get (h[a := ys]) a = Some ys"
  by (auto simp: heap_get_def split: if_splits)

lemma user_top_k_overwrites:
  assumes call: "pred_func model uid pid_array train_ratings h = Inr (a, h1)"
    and xs: "heap_get h1 a = Some xs"
    and run: "user_top_k argsort model pred_func train_ratings pid_array k uid h = Inr (T, h2)"
  shows "only_changed_at a h1 h2"
    and "\<exists>xs'. heap_get h2 a = Some xs' \<and> overwritten xs (history train_ratings uid) xs'"
proof -
  let ?idx = "map item_id (filter (\<lambda>r. user_id r = uid) train_ratings)"
  from run obtain a' h1' ys xs' where call': "pred_func model uid pid_array train_ratings h = Inr (a', h1')"
    and ys: "heap_get h1' a' = Some ys"
    and set: "np_setitem ys ?idx NInf = Inr xs'"
    and h2: "h2 = h1'[a' := xs']"
    by (rule user_top_k_InrE)
  from call call' have eq: "a' = a" "h1' = h1" by simp_all
  with ys xs have "ys = xs" by simp
  show "only_changed_at a h1 h2" by (simp add: h2 eq only_changed_at_update)
  have "overwritten xs (history train_ratings uid) xs'"
    using np_setitem_overwritten [OF set] by (simp only: train_pids_set \<open>ys = xs\<close>)
  moreover have "heap_get h2 a = Some xs'" using xs by (simp add: h2 eq heap_get_update)
  ultimately show "\<exists>xs'. heap_get h2 a = Some xs' \<and> overwritten xs (history train_ratings uid) xs'"
    by blast
qed

lemma precision_at_k_shared_array:
  assumes shared: "\<And>uid h0. pred_func model uid (np_arange no_items) train_ratings h0 = Inr (a, h0)"
    and xs: "heap_get h a = Some xs"
    and run: "precision_at_k argsort model pred_func train_ratings test_ratings no_users
                no_items k h = Inr (precisions, h')"
  shows "only_changed_at a h h' \<and>
         (\<exists>xs'. heap_get h' a = Some xs' \<and>
            overwritten xs (\<Union>uid \<in> {uid. history test_ratings uid \<noteq> {}}.
                             history train_ratings uid) xs')"
proof -
  let ?body = "user_precision argsort model pred_func train_ratings (np_arange no_items) k"
  let ?P = "\<lambda>(d :: (int \<times> dataframe) list) (vs :: score list) hc. only_changed_at a h hc \<and>
      (\<exists>cur. heap_get hc a = Some cur \<and>
         overwritten xs (\<Union>ug \<in> set d. history train_ratings (fst ug)) cur)"
  have loop: "precision_loop ?body (groupby_user_id test_ratings) [] h = Inr (precisions, h')"
    using run by (simp add: precision_at_k_def)
  have "?P ([] @ groupby_user_id test_ratings) precisions h'"
  proof (rule precision_loop_rule [OF loop, where P = ?P])
    show "?P [] [] h" using xs by (simp add: only_changed_at_refl overwritten_refl)
  next
    fix d vs u g h0 p h1
    assume inv: "?P d vs h0" and body: "?body u g h0 = Inr (p, h1)"
    from inv obtain cur where cur: "heap_get h0 a = Some cur"
      and over: "overwritten xs (\<Union>ug \<in> set d. history train_ratings (fst ug)) cur"
      and same: "only_changed_at a h h0"
      by blast
    from user_precision_top_k [OF body] obtain T where
      top: "user_top_k argsort model pred_func train_ratings (np_arange no_items) k u h0 = Inr (T, h1)"
      by blast
    from user_top_k_overwrites [OF shared cur top] obtain cur' where
      step: "only_changed_at a h0 h1" "heap_get h1 a = Some cur'"
        "overwritten cur (history train_ratings u) cur'"
      by blast
    have "overwritten xs (\<Union>ug \<in> set (d @ [(u, g)]). history train_ratings (fst ug)) cur'"
      using overwritten_trans [OF over step(3)] by (simp add: Un_commute)
    then show "?P (d @ [(u, g)]) (vs @ [p]) h1"
      using only_changed_at_trans [OF same step(1)] step(2) by blast
  qed
  then show ?thesis by (simp add: groupby_user_id_histories)
qed

lemma take_take_prefix:
  assumes "length h \<le> length h1" and "take (length h) h1 = h" and "take (length h1) h2 = h1"
  shows "take (length h) h2 = h"
proof -
  have "take (length h) h2 = take (length h) (take (length h1) h2)"
    using assms(1) by (simp add: min.absorb1)
  then show ?thesis using assms(2,3) by simp
qed

lemma take_prefix_length:
  assumes "take (length h) h1 = h"
  shows "length h \<le> length h1"
proof -
  have "length (take (length h) h1) = length h" by (simp only: assms)
  then show ?thesis by simp
qed

lemma user_precision_heap_of:
  "heap_of (user_precision argsort model pred_func train_ratings pid_array k uid g h) =
   heap_of (user_top_k argsort model pred_func train_ratings pid_array k uid h)"
  by (simp add: user_precision_def heap_of_def split: sum.splits prod.splits)

lemma user_top_k_raises:
  assumes "pred_func model uid pid_array train_ratings h = Inl (e, h1)"
  shows "user_top_k argsort model pred_func train_ratings pid_array k uid h = Inl (e, h1)"
  using assms by (simp add: user_top_k_def)

lemma user_precision_raises:
  assumes "pred_func model uid pid_array train_ratings h = Inl (e, h1)"
  shows "user_precision argsort model pred_func train_ratings pid_array k uid g h = Inl (e, h1)"
  using user_top_k_raises [where pred_func = pred_func and model = model, OF assms]
  by (simp add: user_precision_def)

lemma user_top_k_only_changed:
  assumes "pred_func model uid pid_array train_ratings h = Inr (a, h1)"
  shows "only_changed_at a h1
           (heap_of (user_top_k argsort model pred_func train_ratings pid_array k uid h))"
  using assms
  by (simp add: user_top_k_def heap_of_def only_changed_at_refl only_changed_at_update
      split: sum.splits option.splits)

lemma user_top_k_heap_prefix:
  assumes fresh: "allocates_fresh pred_func"
  shows "take (length h)
           (heap_of (user_top_k argsort model pred_func train_ratings pid_array k uid h)) = h"
proof (cases "pred_func model uid pid_array train_ratings h")
  case (Inl r)
  obtain e h1 where r: "r = (e, h1)" by (cases r)
  from fresh have "take (length h) (heap_of (pred_func model uid pid_array train_ratings h)) = h"
    unfolding allocates_fresh_def by blast
  then show ?thesis by (simp add: user_top_k_def Inl r heap_of_def)
next
  case (Inr r)
  obtain a h1 where r: "r = (a, h1)" by (cases r)
  from fresh Inr have a: "length h \<le> a" unfolding allocates_fresh_def r by blast
  from fresh have "take (length h) (heap_of (pred_func model uid pid_array train_ratings h)) = h"
    unfolding allocates_fresh_def by blast
  then have h1: "take (length h) h1 = h" by (simp add: Inr r heap_of_def)
  then show ?thesis using a
    by (simp add: user_top_k_def Inr r heap_of_def split: sum.splits option.splits)
qed

lemma precision_loop_heap_prefix:
  assumes "\<And>u g h0. take (length h0) (heap_of (body u g h0)) = h0"
  shows "take (length h) (heap_of (precision_loop body groups acc h)) = h"
proof (induction groups arbitrary: acc h)
  case Nil
  then show ?case by (simp add: heap_of_def)
next
  case (Cons ug groups)
  obtain u g where ug: "ug = (u, g)" by (cases ug)
  show ?case
  proof (cases "body u g h")
    case (Inl r)
    then show ?thesis using assms [of h u g] by (simp add: ug heap_of_def)
  next
    case (Inr r)
    obtain p h1 where r: "r = (p, h1)" by (cases r)
    have step: "take (length h) h1 = h" using assms [of h u g] by (simp add: Inr r heap_of_def)
    have "take (length h1) (heap_of (precision_loop body groups (acc @ [p]) h1)) = h1"
      by (rule Cons.IH)
    from take_take_prefix [OF take_prefix_length [OF step] step this]
    show ?thesis by (simp add: ug Inr r)
  qed
qed

lemma precision_at_k_heap_prefix:
  assumes "allocates_fresh pred_func"
  shows "take (length h)
           (heap_of (precision_at_k argsort model pred_func train_ratings test_ratings no_users
                       no_items k h)) = h"
  unfolding precision_at_k_def Let_def
  by (rule precision_loop_heap_prefix)
     (simp add: user_precision_heap_of user_top_k_heap_prefix [OF assms])

section \<open>Example runs\<close>

lemma example_groups:
  "groupby_user_id example_test = [(0, [row 0 1, row 0 2]), (1, [row 1 0, row 1 1])]"
  by (simp add: groupby_user_id_def example_test_def row_def)

lemma example_order_0: "stable_argsort [PInf, Fin (- 10), Fin 0, Fin (- 1)] = [1, 3, 2, 0]"
  by (simp add: stable_argsort_def less_eq_score_def upt_rec)

lemma example_order_1: "stable_argsort [Fin (- 5), Fin (- 10), PInf, Fin (- 1)] = [1, 0, 3, 2]"
  by (simp add: stable_argsort_def less_eq_score_def upt_rec)

lemma example_order_2: "stable_argsort [PInf, Fin (- 10), PInf, Fin (- 1)] = [1, 3, 0, 2]"
  by (simp add: stable_argsort_def less_eq_score_def upt_rec)

lemma np_arange_4: "np_arange 4 = [0, 1, 2, 3]"
  by (simp add: np_arange_def upt_rec)

lemma example_run:
  "precision_at_k stable_argsort () (fresh_scores example_scores) example_train example_test
     2 4 2 [] =
   Inr ([Fin (1 / 2), Fin 1], [[NInf, Fin 10, Fin 0, Fin 1], [Fin 5, Fin 10, NInf, Fin 1]])"
proof -
  let ?pf = "fresh_scores example_scores :: unit pred_func"
  have top0: "user_top_k stable_argsort () ?pf example_train (np_arange 4) 2 0 [] =
                Inr ({1, 3}, [[NInf, Fin 10, Fin 0, Fin 1]])"
    by (simp add: user_top_k_def fresh_scores_def example_scores_def example_train_def row_def
        heap_alloc_def heap_get_def np_index_def example_order_0 py_slice_to_def)
  have top1: "user_top_k stable_argsort () ?pf example_train (np_arange 4) 2 1
                [[NInf, Fin 10, Fin 0, Fin 1]] =
                Inr ({1, 0}, [[NInf, Fin 10, Fin 0, Fin 1], [Fin 5, Fin 10, NInf, Fin 1]])"
    by (simp add: user_top_k_def fresh_scores_def example_scores_def example_train_def row_def
        heap_alloc_def heap_get_def np_index_def example_order_1 py_slice_to_def)
  have fk: "py_float 2 = Inr 2"
    using py_float_exact [of 2] by simp
  have div0: "py_truediv 1 2 = Inr (Fin (1 / 2))"
    using py_truediv_fraction [of 1 2] by (simp add: round_binary64_half)
  have div1: "py_truediv 2 2 = Inr (Fin 1)"
    using py_truediv_fraction [of 2 2] by (simp add: round_binary64_one)
  show ?thesis
    by (simp add: precision_at_k_def example_groups user_precision_def top0 top1 row_def
        fk div0 div1)
qed

lemma item_run:
  "precision_at_k stable_argsort () (item_scores example_score) example_train example_test
     2 4 2 [] =
   Inr ([Fin (1 / 2), Fin 1], [[NInf, Fin 10, Fin 0, Fin 1], [Fin 5, Fin 10, NInf, Fin 1]])"
proof -
  let ?pf = "item_scores example_score :: unit pred_func"
  have top0: "user_top_k stable_argsort () ?pf example_train (np_arange 4) 2 0 [] =
                Inr ({1, 3}, [[NInf, Fin 10, Fin 0, Fin 1]])"
    by (simp add: user_top_k_def item_scores_def example_score_def np_arange_4 example_train_def
        row_def heap_alloc_def heap_get_def np_index_def example_order_0 py_slice_to_def)
  have top1: "user_top_k stable_argsort () ?pf example_train (np_arange 4) 2 1
                [[NInf, Fin 10, Fin 0, Fin 1]] =
                Inr ({1, 0}, [[NInf, Fin 10, Fin 0, Fin 1], [Fin 5, Fin 10, NInf, Fin 1]])"
    by (simp add: user_top_k_def item_scores_def example_score_def np_arange_4 example_train_def
        row_def heap_alloc_def heap_get_def np_index_def example_order_1 py_slice_to_def)
  have fk: "py_float 2 = Inr 2"
    using py_float_exact [of 2] by simp
  have div0: "py_truediv 1 2 = Inr (Fin (1 / 2))"
    using py_truediv_fraction [of 1 2] by (simp add: round_binary64_half)
  have div1: "py_truediv 2 2 = Inr (Fin 1)"
    using py_truediv_fraction [of 2 2] by (simp add: round_binary64_one)
  show ?thesis
    by (simp add: precision_at_k_def example_groups user_precision_def top0 top1 row_def
        fk div0 div1)
qed

lemma wider_run:
  "precision_at_k stable_argsort () (item_scores example_score) wider_train example_test
     3 4 2 [] =
   Inr ([Fin (1 / 2), Fin 1], [[NInf, Fin 10, Fin 0, Fin 1], [Fin 5, Fin 10, NInf, Fin 1]])"
proof -
  let ?pf = "item_scores example_score :: unit pred_func"
  have top0: "user_top_k stable_argsort () ?pf wider_train (np_arange 4) 2 0 [] =
                Inr ({1, 3}, [[NInf, Fin 10, Fin 0, Fin 1]])"
    by (simp add: user_top_k_def item_scores_def example_score_def np_arange_4 wider_train_def
        row_def heap_alloc_def heap_get_def np_index_def example_order_0 py_slice_to_def)
  have top1: "user_top_k stable_argsort () ?pf wider_train (np_arange 4) 2 1
                [[NInf, Fin 10, Fin 0, Fin 1]] =
                Inr ({1, 0}, [[NInf, Fin 10, Fin 0, Fin 1], [Fin 5, Fin 10, NInf, Fin 1]])"
    by (simp add: user_top_k_def item_scores_def example_score_def np_arange_4 wider_train_def
        row_def heap_alloc_def heap_get_def np_index_def example_order_1 py_slice_to_def)
  have fk: "py_float 2 = Inr 2"
    using py_float_exact [of 2] by simp
  have div0: "py_truediv 1 2 = Inr (Fin (1 / 2))"
    using py_truediv_fraction [of 1 2] by (simp add: round_binary64_half)
  have div1: "py_truediv 2 2 = Inr (Fin 1)"
    using py_truediv_fraction [of 2 2] by (simp add: round_binary64_one)
  show ?thesis
    by (simp add: precision_at_k_def example_groups user_precision_def top0 top1 row_def
        fk div0 div1)
qed

lemma example_users: "sorted_list_of_set {uid. history example_test uid \<noteq> {}} = [0, 1]"
  using groupby_user_id_keys [of example_test] by (simp add: example_groups present_users)

lemma unit_run:
  "precision_at_k stable_argsort () (fresh_scores unit_scores) [] [row 0 0] 1 1 49 [] =
     Inr ([Fin (5882252574524729 / 288230376151711744)], [[Fin 1]])"
proof -
  have top: "user_top_k stable_argsort () (fresh_scores unit_scores) [] (np_arange 1) 49 0 [] =
               Inr ({0}, [[Fin 1]])"
    by (simp add: user_top_k_def fresh_scores_def unit_scores_def heap_alloc_def heap_get_def
        stable_argsort_def py_slice_to_def)
  have fk: "py_float 49 = Inr 49"
    using py_float_exact [of 49] by simp
  have "round_binary64 (1 / 49) = 5882252574524729 / 288230376151711744" by code_simp
  then have div: "py_truediv 1 49 = Inr (Fin (5882252574524729 / 288230376151711744))"
    using py_truediv_fraction [of 1 49] by simp
  show ?thesis
    by (simp add: precision_at_k_def groupby_user_id_def user_precision_def top row_def fk div)
qed

lemma cached_top_0:
  "user_top_k stable_argsort 0 cached_scores example_train (np_arange 4) 2 0
     [[Fin 5, Fin 10, Fin 0, Fin 1]] = Inr ({1, 3}, [[NInf, Fin 10, Fin 0, Fin 1]])"
  by (simp add: user_top_k_def cached_scores_def example_train_def row_def
      heap_get_def np_index_def example_order_0 py_slice_to_def)

lemma cached_top_1:
  "user_top_k stable_argsort 0 cached_scores example_train (np_arange 4) 2 1
     [[NInf, Fin 10, Fin 0, Fin 1]] = Inr ({1, 3}, [[NInf, Fin 10, NInf, Fin 1]])"
  by (simp add: user_top_k_def cached_scores_def example_train_def row_def
      heap_get_def np_index_def example_order_2 py_slice_to_def)

lemma cached_run:
  "precision_at_k stable_argsort 0 cached_scores example_train example_test 2 4 2
     [[Fin 5, Fin 10, Fin 0, Fin 1]] =
   Inr ([Fin (1 / 2), Fin (1 / 2)], [[NInf, Fin 10, NInf, Fin 1]])"
proof -
  have fk: "py_float 2 = Inr 2"
    using py_float_exact [of 2] by simp
  have div: "py_truediv 1 2 = Inr (Fin (1 / 2))"
    using py_truediv_fraction [of 1 2] by (simp add: round_binary64_half)
  show ?thesis
    by (simp add: precision_at_k_def example_groups user_precision_def cached_top_0 cached_top_1
        row_def fk div)
qed

lemma latent_scores_0:
  "predict_from_latent seq_np_dot example_model 0 [0, 1, 2, 3] train_ratings h =
     Inr (length h, h @ [[Fin 1, Fin 2, Fin 3, Fin 0]])"
  by (simp add: predict_from_latent_def example_model_def np_row_def np_index_def np_take_def
      np_T_def seq_np_dot_def np_column_def dot32_def rnd32_small heap_alloc_def upt_rec)

lemma latent_scores_1:
  "predict_from_latent seq_np_dot example_model 1 [0, 1, 2, 3] train_ratings h =
     Inr (length h, h @ [[Fin 0, Fin 1, Fin 1, Fin (- 1)]])"
  by (simp add: predict_from_latent_def example_model_def np_row_def np_index_def np_take_def
      np_T_def seq_np_dot_def np_column_def dot32_def rnd32_small heap_alloc_def upt_rec)





lemma latent_order_0: "stable_argsort [PInf, Fin (- 2), Fin (- 3), Fin 0] = [2, 1, 3, 0]"
  by (simp add: stable_argsort_def less_eq_score_def upt_rec)

lemma latent_order_1: "stable_argsort [Fin 0, Fin (- 1), PInf, Fin 1] = [1, 0, 3, 2]"
  by (simp add: stable_argsort_def less_eq_score_def upt_rec)

lemma latent_run:
  "precision_at_k stable_argsort example_model (predict_from_latent seq_np_dot) example_train example_test
     2 4 2 [[Fin 7]] =
   Inr ([Fin 1, Fin 1],
        [[Fin 7], [NInf, Fin 2, Fin 3, Fin 0], [Fin 0, Fin 1, NInf, Fin (- 1)]])"
proof -
  have top0: "user_top_k stable_argsort example_model (predict_from_latent seq_np_dot) example_train
      [0, 1, 2, 3] 2 0 [[Fin 7]] = Inr ({2, 1}, [[Fin 7], [NInf, Fin 2, Fin 3, Fin 0]])"
    by (simp add: user_top_k_def latent_scores_0 example_train_def row_def
        heap_get_def np_index_def latent_order_0 py_slice_to_def)
  have top1: "user_top_k stable_argsort example_model (predict_from_latent seq_np_dot) example_train
      [0, 1, 2, 3] 2 1 [[Fin 7], [NInf, Fin 2, Fin 3, Fin 0]] =
      Inr ({1, 0}, [[Fin 7], [NInf, Fin 2, Fin 3, Fin 0], [Fin 0, Fin 1, NInf, Fin (- 1)]])"
    by (simp add: user_top_k_def latent_scores_1 example_train_def row_def
        heap_get_def np_index_def latent_order_1 py_slice_to_def)
  have fk: "py_float 2 = Inr 2"
    using py_float_exact [of 2] by simp
  have div: "py_truediv 2 2 = Inr (Fin 1)"
    using py_truediv_integral [of 2 2 1] by simp
  show ?thesis
    by (simp add: precision_at_k_def np_arange_4 example_groups user_precision_def top0 top1
        row_def fk div)
qed

lemma shared_first_run:
  "precision_at_k stable_argsort 0 cached_scores shared_train shared_test 2 3 1
     [[Fin 0, Fin 10, Fin 5]] = Inr ([Fin 1, Fin 1], [[Fin 0, NInf, Fin 5]])"
proof -
  have groups: "groupby_user_id shared_test = [(0, [row 0 1]), (1, [row 1 2])]"
    by (simp add: groupby_user_id_def shared_test_def row_def)
  have o0: "stable_argsort [Fin 0, Fin (- 10), Fin (- 5)] = [1, 2, 0]"
    by (simp add: stable_argsort_def less_eq_score_def upt_rec)
  have o1: "stable_argsort [Fin 0, PInf, Fin (- 5)] = [2, 0, 1]"
    by (simp add: stable_argsort_def less_eq_score_def upt_rec)
  have top0: "user_top_k stable_argsort 0 cached_scores shared_train (np_arange 3) 1 0
                [[Fin 0, Fin 10, Fin 5]] = Inr ({1}, [[Fin 0, Fin 10, Fin 5]])"
    by (simp add: user_top_k_def cached_scores_def shared_train_def row_def heap_get_def o0 py_slice_to_def)
  have top1: "user_top_k stable_argsort 0 cached_scores shared_train (np_arange 3) 1 1
                [[Fin 0, Fin 10, Fin 5]] = Inr ({2}, [[Fin 0, NInf, Fin 5]])"
    by (simp add: user_top_k_def cached_scores_def shared_train_def row_def heap_get_def np_index_def o1
        py_slice_to_def)
  have fk: "py_float 1 = Inr 1"
    using py_float_exact [of 1] by simp
  have div: "py_truediv 1 1 = Inr (Fin 1)"
    using py_truediv_integral [of 1 1 1] by simp
  show ?thesis
    by (simp add: precision_at_k_def groups user_precision_def top0 top1 row_def fk div)
qed

lemma shared_second_run:
  "precision_at_k stable_argsort 0 cached_scores shared_train shared_test 2 3 1
     [[Fin 0, NInf, Fin 5]] = Inr ([Fin 0, Fin 1], [[Fin 0, NInf, Fin 5]])"
proof -
  have groups: "groupby_user_id shared_test = [(0, [row 0 1]), (1, [row 1 2])]"
    by (simp add: groupby_user_id_def shared_test_def row_def)
  have o1: "stable_argsort [Fin 0, PInf, Fin (- 5)] = [2, 0, 1]"
    by (simp add: stable_argsort_def less_eq_score_def upt_rec)
  have top0: "user_top_k stable_argsort 0 cached_scores shared_train (np_arange 3) 1 0
                [[Fin 0, NInf, Fin 5]] = Inr ({2}, [[Fin 0, NInf, Fin 5]])"
    by (simp add: user_top_k_def cached_scores_def shared_train_def row_def heap_get_def o1 py_slice_to_def)
  have top1: "user_top_k stable_argsort 0 cached_scores shared_train (np_arange 3) 1 1
                [[Fin 0, NInf, Fin 5]] = Inr ({2}, [[Fin 0, NInf, Fin 5]])"
    by (simp add: user_top_k_def cached_scores_def shared_train_def row_def heap_get_def np_index_def o1
        py_slice_to_def)
  have fk: "py_float 1 = Inr 1"
    using py_float_exact [of 1] by simp
  have div1: "py_truediv 1 1 = Inr (Fin 1)"
    using py_truediv_integral [of 1 1 1] by simp
  have div0: "py_truediv 0 1 = Inr (Fin 0)"
    using py_truediv_integral [of 0 1 0] by simp
  show ?thesis
    by (simp add: precision_at_k_def groups user_precision_def top0 top1 row_def fk div0 div1)
qed

lemma tied_run_stable:
  "precision_at_k stable_argsort () (fresh_scores tied_scores) [] [row 0 2] 1 3 1 h =
     Inr ([Fin 0], h @ [[Fin 1, Fin 1, Fin 1]])"
proof -
  let ?pf = "fresh_scores tied_scores :: unit pred_func"
  have top: "user_top_k stable_argsort () ?pf [] (np_arange 3) 1 0 h =
               Inr ({0}, h @ [[Fin 1, Fin 1, Fin 1]])"
    by (simp add: user_top_k_def fresh_scores_def tied_scores_def heap_alloc_def heap_get_def
        stable_argsort_def less_eq_score_def upt_rec py_slice_to_def)
  have fk: "py_float 1 = Inr 1"
    using py_float_exact [of 1] by simp
  have div: "py_truediv 0 1 = Inr (Fin 0)"
    using py_truediv_integral [of 0 1 0] by simp
  show ?thesis
    by (simp add: precision_at_k_def groupby_user_id_def user_precision_def top row_def fk div)
qed

lemma tied_run_reverse:
  "precision_at_k reverse_argsort () (fresh_scores tied_scores) [] [row 0 2] 1 3 1 h =
     Inr ([Fin 1], h @ [[Fin 1, Fin 1, Fin 1]])"
proof -
  let ?pf = "fresh_scores tied_scores :: unit pred_func"
  have top: "user_top_k reverse_argsort () ?pf [] (np_arange 3) 1 0 h =
               Inr ({2}, h @ [[Fin 1, Fin 1, Fin 1]])"
    by (simp add: user_top_k_def fresh_scores_def tied_scores_def heap_alloc_def heap_get_def
        reverse_argsort_def less_eq_score_def upt_rec py_slice_to_def)
  have fk: "py_float 1 = Inr 1"
    using py_float_exact [of 1] by simp
  have div: "py_truediv 1 1 = Inr (Fin 1)"
    using py_truediv_integral [of 1 1 1] by simp
  show ?thesis
    by (simp add: precision_at_k_def groupby_user_id_def user_precision_def top row_def fk div)
qed

lemma item_run_reverse:
  "precision_at_k reverse_argsort () (item_scores example_score) example_train example_test
     2 4 2 [[Fin 7]] =
   Inr ([Fin (1 / 2), Fin 1],
        [[Fin 7], [NInf, Fin 10, Fin 0, Fin 1], [Fin 5, Fin 10, NInf, Fin 1]])"
proof -
  let ?pf = "item_scores example_score :: unit pred_func"
  have o0: "reverse_argsort [PInf, Fin (- 10), Fin 0, Fin (- 1)] = [1, 3, 2, 0]"
    by (simp add: reverse_argsort_def less_eq_score_def upt_rec)
  have o1: "reverse_argsort [Fin (- 5), Fin (- 10), PInf, Fin (- 1)] = [1, 0, 3, 2]"
    by (simp add: reverse_argsort_def less_eq_score_def upt_rec)
  have top0: "user_top_k reverse_argsort () ?pf example_train (np_arange 4) 2 0 [[Fin 7]] =
                Inr ({1, 3}, [[Fin 7], [NInf, Fin 10, Fin 0, Fin 1]])"
    by (simp add: user_top_k_def item_scores_def example_score_def np_arange_4 example_train_def
        row_def heap_alloc_def heap_get_def np_index_def o0 py_slice_to_def)
  have top1: "user_top_k reverse_argsort () ?pf example_train (np_arange 4) 2 1
                [[Fin 7], [NInf, Fin 10, Fin 0, Fin 1]] =
                Inr ({1, 0}, [[Fin 7], [NInf, Fin 10, Fin 0, Fin 1], [Fin 5, Fin 10, NInf, Fin 1]])"
    by (simp add: user_top_k_def item_scores_def example_score_def np_arange_4 example_train_def
        row_def heap_alloc_def heap_get_def np_index_def o1 py_slice_to_def)
  have fk: "py_float 2 = Inr 2"
    using py_float_exact [of 2] by simp
  have div0: "py_truediv 1 2 = Inr (Fin (1 / 2))"
    using py_truediv_fraction [of 1 2] by (simp add: round_binary64_half)
  have div1: "py_truediv 2 2 = Inr (Fin 1)"
    using py_truediv_fraction [of 2 2] by (simp add: round_binary64_one)
  show ?thesis
    by (simp add: precision_at_k_def example_groups user_precision_def top0 top1 row_def
        fk div0 div1)
qed

lemma latent_run_zero_k:
  "precision_at_k stable_argsort example_model (predict_from_latent seq_np_dot) example_train
     example_test 2 4 0 [[Fin 7]] =
   Inl (ZeroDivisionError, [[Fin 7], [NInf, Fin 2, Fin 3, Fin 0]])"
proof -
  have top0: "user_top_k stable_argsort example_model (predict_from_latent seq_np_dot)
      example_train [0, 1, 2, 3] 0 0 [[Fin 7]] = Inr ({}, [[Fin 7], [NInf, Fin 2, Fin 3, Fin 0]])"
    by (simp add: user_top_k_def latent_scores_0 example_train_def row_def
        heap_get_def np_index_def latent_order_0 py_slice_to_def)
  have div: "py_truediv 0 0 = Inl ZeroDivisionError"
    by (simp add: py_truediv_def py_float_zero)
  show ?thesis
    by (simp add: precision_at_k_def np_arange_4 example_groups user_precision_def top0
        py_float_zero div)
qed

lemma latent_body_0:
  "user_precision stable_argsort example_model (predict_from_latent seq_np_dot) example_train
     [0, 1, 2, 3] 2 0 [row 0 1, row 0 2] [[Fin 7]] =
   Inr (Fin 1, [[Fin 7], [NInf, Fin 2, Fin 3, Fin 0]])"
proof -
  have top0: "user_top_k stable_argsort example_model (predict_from_latent seq_np_dot)
      example_train [0, 1, 2, 3] 2 0 [[Fin 7]] = Inr ({2, 1}, [[Fin 7], [NInf, Fin 2, Fin 3, Fin 0]])"
    by (simp add: user_top_k_def latent_scores_0 example_train_def row_def
        heap_get_def np_index_def latent_order_0 py_slice_to_def)
  have fk: "py_float 2 = Inr 2"
    using py_float_exact [of 2] by simp
  have div: "py_truediv 2 2 = Inr (Fin 1)"
    using py_truediv_integral [of 2 2 1] by simp
  show ?thesis
    by (simp add: user_precision_def top0 row_def fk div)
qed

section \<open>The claims\<close>

subsection \<open>The value of the precision\<close>

text \<open>
  C1. For every user with at least one held-out item, the value that \<^verbatim>\<open>precision_at_k\<close>
  produces is \<open>|top-k \<inter> TestHistory| / k\<close>, where top-k is a set of \<open>k\<close> item identifiers
  with the highest scores among the items \<open>[0, no_items)\<close> after the scores of the user's
  training items are forced to negative infinity. The values come in ascending order of
  the users. The quotient is the one Python computes, the double nearest to the exact
  quotient. The score function is described by the score it gives to an item: for a
  user of the test frame and any list of candidates from \<open>[0, no_items)\<close> it returns the
  scores of these candidates, in their order, and no score is NaN. The items of the
  training frame lie in \<open>[0, no_items)\<close>; \<open>k\<close> is at least 1 and converts to a double
  exactly. Under these conditions the call returns. When fewer than \<open>k\<close> items exist,
  the top-k set holds them all.
\<close>

theorem precision_at_k_value:
  assumes spec: "argsort_spec argsort"
    and k: "1 \<le> k" "k \<le> 2 ^ 53"
    and scores: "\<And>uid pids h0. uid \<in> user_id ` set test_ratings \<Longrightarrow> set pids \<subseteq> {0..<no_items} \<Longrightarrow>
        \<exists>a h1. pred_func model uid pids train_ratings h0 = Inr (a, h1) \<and>
               heap_get h1 a = Some (map (score uid) pids)"
    and nonan: "\<And>uid pid. uid \<in> user_id ` set test_ratings \<Longrightarrow> 0 \<le> pid \<Longrightarrow> pid < no_items \<Longrightarrow>
        score uid pid \<noteq> NaN"
    and ids: "\<And>r. r \<in> set train_ratings \<Longrightarrow> 0 \<le> item_id r \<and> item_id r < no_items"
  shows "\<exists>precisions h'.
           precision_at_k argsort model pred_func train_ratings test_ratings no_users no_items k h =
             Inr (precisions, h') \<and>
           list_all2
             (\<lambda>uid p. \<exists>T. spec_top_k_items no_items
                              (spec_masked_score (score uid) (history train_ratings uid)) k T \<and>
                            p = Fin (round_binary64
                                       (of_nat (card (T \<inter> history test_ratings uid)) / of_int k)))
             (sorted_list_of_set {uid. history test_ratings uid \<noteq> {}}) precisions"
proof -
  from precision_at_k_returns [where pred_func = pred_func and model = model and score = score,
      OF k scores ids] obtain precisions h' where
    run: "precision_at_k argsort model pred_func train_ratings test_ratings no_users no_items k h =
            Inr (precisions, h')"
    by blast
  have "list_all2
          (\<lambda>uid p. \<exists>T. spec_top_k_items no_items
                           (spec_masked_score (score uid) (history train_ratings uid)) k T \<and>
                         p = Fin (round_binary64
                                    (of_nat (card (T \<inter> history test_ratings uid)) / of_int k)))
          (sorted_list_of_set {uid. history test_ratings uid \<noteq> {}}) precisions"
  proof (rule precision_at_k_value_of_run [where pred_func = pred_func and model = model
        and score = score, OF spec k scores nonan _ run])
    fix r
    assume "r \<in> set train_ratings"
    then show "0 \<le> item_id r" using ids by simp
  qed
  with run show ?thesis by blast
qed

text \<open>
  An instance with two users and the stable argsort: user 0 has seen item 0 and holds
  out items 1 and 2, user 1 has seen item 2 and holds out items 0 and 1. The run returns
  the precisions \<open>1/2\<close> and \<open>1\<close>.
\<close>

theorem precision_at_k_value_witness:
  "(\<exists>precisions h'.
      precision_at_k stable_argsort () (item_scores example_score) example_train example_test
        2 4 2 [] = Inr (precisions, h') \<and>
      list_all2
        (\<lambda>uid p. \<exists>T. spec_top_k_items 4
                         (spec_masked_score (example_score uid) (history example_train uid)) 2 T \<and>
                       p = Fin (round_binary64 (of_nat (card (T \<inter> history example_test uid)) / 2)))
        (sorted_list_of_set {uid. history example_test uid \<noteq> {}}) precisions) \<and>
   precision_at_k stable_argsort () (item_scores example_score) example_train example_test
     2 4 2 [] =
   Inr ([Fin (1 / 2), Fin 1], [[NInf, Fin 10, Fin 0, Fin 1], [Fin 5, Fin 10, NInf, Fin 1]])"
proof -
  let ?pf = "item_scores example_score :: unit pred_func"
  have scores: "\<exists>a h1. ?pf () uid pids example_train h0 = Inr (a, h1) \<and>
                  heap_get h1 a = Some (map (example_score uid) pids)" for uid pids h0
    by (simp add: item_scores_def heap_alloc_def heap_get_def)
  have nonan: "example_score uid pid \<noteq> NaN" for uid pid
    by (simp add: example_score_def)
  have ids: "0 \<le> item_id r \<and> item_id r < 4" if "r \<in> set example_train" for r
    using that by (auto simp: example_train_def row_def)
  show ?thesis
    using precision_at_k_value [where pred_func = ?pf and model = "()"
        and score = example_score and k = 2 and test_ratings = example_test and no_users = 2
        and h = "[]", OF stable_argsort_spec _ _ scores nonan ids]
    by (simp add: item_run)
qed

subsection \<open>Seen items in the top-k set\<close>

text \<open>
  C2 claims that the top-k set never contains an item of the user's training history.
  The code lowers the scores of seen items instead of removing the items. In the example,
  user 0 has seen item 0; with \<open>k = 4\<close> only three unseen candidates remain, and the
  selected set holds item 0.
\<close>

theorem top_k_contains_seen_counterexample:
  "user_top_k stable_argsort () (fresh_scores example_scores) example_train (np_arange 4) 4 0 [] =
     Inr ({1, 3, 2, 0}, [[NInf, Fin 10, Fin 0, Fin 1]]) \<and>
   0 \<in> history example_train 0 \<and> (0::int) \<in> {1, 3, 2, 0}"
proof -
  have "history example_train 0 = {0}"
    by (simp add: example_train_def row_def flip: train_pids_set)
  moreover have "user_top_k stable_argsort () (fresh_scores example_scores) example_train
      (np_arange 4) 4 0 [] = Inr ({1, 3, 2, 0}, [[NInf, Fin 10, Fin 0, Fin 1]])"
    by (simp add: user_top_k_def fresh_scores_def example_scores_def example_train_def row_def
        heap_alloc_def heap_get_def np_index_def example_order_0 py_slice_to_def)
  ultimately show ?thesis by simp
qed

text \<open>
  C2, amended. In a run that returns, the top-k set from which a user's precision is
  computed contains no item of that user's training history, provided at least \<open>k\<close>
  unseen candidates have a score other than NaN and negative infinity. The score
  function is taken to return \<open>scores uid\<close>; item identifiers are not negative.
\<close>

theorem top_k_excludes_seen:
  assumes spec: "argsort_spec argsort"
    and k: "1 \<le> k"
    and yields: "\<And>uid h0 a h1.
        pred_func model uid (np_arange no_items) train_ratings h0 = Inr (a, h1) \<Longrightarrow>
        heap_get h1 a = Some (scores uid)"
    and ids: "\<And>r. r \<in> set train_ratings \<Longrightarrow> 0 \<le> item_id r"
    and enough: "\<And>uid. history test_ratings uid \<noteq> {} \<Longrightarrow>
        nat k \<le> card {j. j < length (scores uid) \<and> int j \<notin> history train_ratings uid \<and>
                          scores uid ! j \<noteq> NaN \<and> scores uid ! j \<noteq> NInf}"
    and run: "precision_at_k argsort model pred_func train_ratings test_ratings no_users
                no_items k h = Inr (precisions, h')"
  shows "list_all2
           (\<lambda>uid p. \<exists>T h0 h1 fk.
              user_top_k argsort model pred_func train_ratings (np_arange no_items) k uid h0 =
                Inr (T, h1) \<and>
              py_float k = Inr fk \<and>
              py_truediv (int (card (T \<inter> history test_ratings uid))) fk = Inr p \<and>
              T \<inter> history train_ratings uid = {})
           (sorted_list_of_set {uid. history test_ratings uid \<noteq> {}}) precisions"
  unfolding present_users
proof (rule precision_at_k_all2 [OF run])
  fix uid h0 p h1
  let ?g = "filter (\<lambda>r. user_id r = uid) test_ratings"
  assume uid: "uid \<in> user_id ` set test_ratings"
  assume "user_precision argsort model pred_func train_ratings (np_arange no_items) k uid ?g h0 =
            Inr (p, h1)"
  then obtain T fk where top: "user_top_k argsort model pred_func train_ratings
        (np_arange no_items) k uid h0 = Inr (T, h1)"
    and fk: "py_float k = Inr fk"
    and div: "py_truediv (int (card (T \<inter> item_id ` set ?g))) fk = Inr p"
    by (rule user_precision_InrE)
  have "history test_ratings uid \<noteq> {}" using uid by (simp add: history_nonempty_iff)
  from enough [OF this] have "T \<inter> history train_ratings uid = {}"
    using k by (intro user_top_k_excludes_seen [OF spec _ yields ids _ top]) simp_all
  moreover have "py_truediv (int (card (T \<inter> history test_ratings uid))) fk = Inr p"
    using div by (simp only: history_filter)
  ultimately show "\<exists>T h0 h1 fk.
              user_top_k argsort model pred_func train_ratings (np_arange no_items) k uid h0 =
                Inr (T, h1) \<and>
              py_float k = Inr fk \<and>
              py_truediv (int (card (T \<inter> history test_ratings uid))) fk = Inr p \<and>
              T \<inter> history train_ratings uid = {}"
    using top fk by blast
qed

text \<open>
  The example with \<open>k = 2\<close>: items 1 and 3 are unseen for both users and carry finite
  scores.
\<close>

theorem top_k_excludes_seen_witness:
  "list_all2
     (\<lambda>uid p. \<exists>T h0 h1 fk.
        user_top_k stable_argsort () (fresh_scores example_scores) example_train (np_arange 4) 2
          uid h0 = Inr (T, h1) \<and>
        py_float 2 = Inr fk \<and>
        py_truediv (int (card (T \<inter> history example_test uid))) fk = Inr p \<and>
        T \<inter> history example_train uid = {})
     (sorted_list_of_set {uid. history example_test uid \<noteq> {}}) [Fin (1 / 2), Fin 1]"
proof -
  let ?pf = "fresh_scores example_scores :: unit pred_func"
  have yields: "heap_get h1 a = Some (example_scores uid)"
    if "?pf () uid (np_arange 4) example_train h0 = Inr (a, h1)" for uid h0 a h1
    using that by (auto simp: fresh_scores_def heap_alloc_def heap_get_def)
  have ids: "0 \<le> item_id r" if "r \<in> set example_train" for r
    using that by (auto simp: example_train_def row_def)
  have enough: "nat 2 \<le> card {j. j < length (example_scores uid) \<and>
      int j \<notin> history example_train uid \<and> example_scores uid ! j \<noteq> NaN \<and>
      example_scores uid ! j \<noteq> NInf}" (is "_ \<le> card ?G") for uid
  proof -
    have "{1, 3} \<subseteq> ?G"
      by (auto simp: example_scores_def history_def example_train_def row_def)
    then have "card {1, 3 :: nat} \<le> card ?G" by (intro card_mono) simp_all
    then show ?thesis by simp
  qed
  show ?thesis
    using top_k_excludes_seen [OF stable_argsort_spec _ yields ids enough example_run]
    by simp
qed

subsection \<open>Malformed arguments\<close>

text \<open>
  C3 claims that \<open>k < 1\<close> and \<open>no_items \<le> 0\<close> make \<^verbatim>\<open>precision_at_k\<close> fail with an error.
  The function checks neither argument. On the example with \<open>k = -1\<close> the slice drops the
  last position and both users get the precision \<open>-2\<close>. With \<open>no_items = 0\<close> and \<open>k = 1\<close>
  the repository's own score function returns an empty array for the empty candidate
  list, and the result is the precision \<open>0\<close>.
\<close>

theorem malformed_arguments_counterexample:
  "precision_at_k stable_argsort () (fresh_scores example_scores) example_train example_test
     2 4 (- 1) [] =
     Inr ([Fin (- 2), Fin (- 2)], [[NInf, Fin 10, Fin 0, Fin 1], [Fin 5, Fin 10, NInf, Fin 1]]) \<and>
   precision_at_k stable_argsort example_model (predict_from_latent seq_np_dot) [] [row 0 0]
     2 0 1 [] =
     Inr ([Fin 0], [[]])"
proof -
  let ?pf = "fresh_scores example_scores :: unit pred_func"
  have top0: "user_top_k stable_argsort () ?pf example_train (np_arange 4) (- 1) 0 [] =
                Inr ({1, 3, 2}, [[NInf, Fin 10, Fin 0, Fin 1]])"
    by (simp add: user_top_k_def fresh_scores_def example_scores_def example_train_def row_def
        heap_alloc_def heap_get_def np_index_def example_order_0 py_slice_to_def)
  have top1: "user_top_k stable_argsort () ?pf example_train (np_arange 4) (- 1) 1
                [[NInf, Fin 10, Fin 0, Fin 1]] =
                Inr ({1, 0, 3}, [[NInf, Fin 10, Fin 0, Fin 1], [Fin 5, Fin 10, NInf, Fin 1]])"
    by (simp add: user_top_k_def fresh_scores_def example_scores_def example_train_def row_def
        heap_alloc_def heap_get_def np_index_def example_order_1 py_slice_to_def)
  have fk: "py_float (- 1) = Inr (- 1)"
    using py_float_exact [of "- 1"] by simp
  have div: "py_truediv 2 (- 1) = Inr (Fin (- 2))"
    using py_truediv_integral [of 2 "- 1" "- 2"] by simp
  have a: "precision_at_k stable_argsort () ?pf example_train example_test 2 4 (- 1) [] =
     Inr ([Fin (- 2), Fin (- 2)], [[NInf, Fin 10, Fin 0, Fin 1], [Fin 5, Fin 10, NInf, Fin 1]])"
    by (simp add: precision_at_k_def example_groups user_precision_def top0 top1 row_def fk div)
  have scores: "predict_from_latent seq_np_dot example_model 0 [] [] [] = Inr (0, [[]])"
    by (simp add: predict_from_latent_def example_model_def np_row_def np_index_def np_take_def
        np_T_def seq_np_dot_def heap_alloc_def)
  have top: "user_top_k stable_argsort example_model (predict_from_latent seq_np_dot) []
               (np_arange 0) 1 0 [] = Inr ({}, [[]])"
    by (simp add: user_top_k_def np_arange_def scores heap_get_def stable_argsort_def
        py_slice_to_def)
  have fk1: "py_float 1 = Inr 1"
    using py_float_exact [of 1] by simp
  have div1: "py_truediv 0 1 = Inr (Fin 0)"
    using py_truediv_integral [of 0 1 0] by simp
  have b: "precision_at_k stable_argsort example_model (predict_from_latent seq_np_dot) []
     [row 0 0] 2 0 1 [] = Inr ([Fin 0], [[]])"
    by (simp add: precision_at_k_def groupby_user_id_def user_precision_def top row_def fk1 div1)
  from a b show ?thesis by simp
qed

text \<open>
  C3, amended. The one malformed argument that stops the call is \<open>k = 0\<close>: when the test
  frame has a row, the call raises instead of returning, at the latest in the division
  for the first user. A negative \<open>k\<close> and a non-positive \<open>no_items\<close> are not checked.
\<close>

theorem precision_at_k_zero_k_fails:
  assumes "test_ratings \<noteq> []"
  shows "\<exists>e. precision_at_k argsort model pred_func train_ratings test_ratings no_users no_items
               0 h = Inl e"
proof -
  let ?body = "user_precision argsort model pred_func train_ratings (np_arange no_items) 0"
  from assms obtain u g groups where groups: "groupby_user_id test_ratings = (u, g) # groups"
    using groupby_user_id_empty_iff [of test_ratings]
    by (cases "groupby_user_id test_ratings") auto
  obtain e where "?body u g h = Inl e"
    using user_precision_zero_k [of argsort model pred_func train_ratings "np_arange no_items" u g h]
    by (cases "?body u g h") auto
  then show ?thesis by (simp add: precision_at_k_def groups)
qed

text \<open>
  On the example with \<open>k = 0\<close> the error is ZeroDivisionError, raised for the first user
  after that user's score array has been written.
\<close>

theorem precision_at_k_zero_k_fails_witness:
  "example_test \<noteq> [] \<and>
   (\<exists>e. precision_at_k stable_argsort () (fresh_scores example_scores) example_train example_test
           2 4 0 [] = Inl e) \<and>
   precision_at_k stable_argsort () (fresh_scores example_scores) example_train example_test
     2 4 0 [] = Inl (ZeroDivisionError, [[NInf, Fin 10, Fin 0, Fin 1]])"
proof -
  let ?pf = "fresh_scores example_scores :: unit pred_func"
  have ne: "example_test \<noteq> []" by (simp add: example_test_def)
  have top0: "user_top_k stable_argsort () ?pf example_train (np_arange 4) 0 0 [] =
                Inr ({}, [[NInf, Fin 10, Fin 0, Fin 1]])"
    by (simp add: user_top_k_def fresh_scores_def example_scores_def example_train_def row_def
        heap_alloc_def heap_get_def np_index_def example_order_0 py_slice_to_def)
  have div: "py_truediv 0 0 = Inl ZeroDivisionError"
    by (simp add: py_truediv_def py_float_zero)
  have "precision_at_k stable_argsort () ?pf example_train example_test 2 4 0 [] =
          Inl (ZeroDivisionError, [[NInf, Fin 10, Fin 0, Fin 1]])"
    by (simp add: precision_at_k_def example_groups user_precision_def top0 py_float_zero div)
  then show ?thesis
    using ne precision_at_k_zero_k_fails [OF ne, of stable_argsort "()" ?pf example_train 2 4 "[]"]
    by simp
qed

subsection \<open>predict_from_latent\<close>




subsection \<open>The entries of the result\<close>

text \<open>
  C5. The list that \<^verbatim>\<open>precision_at_k\<close> returns has exactly one entry for each user with a
  non-empty held-out item set, in the order in which the groups of the test frame are
  iterated (ascending user identifier); each entry is the value the loop body computes
  for its user and that user's rows of the test frame. A user without held-out items
  has no group: it gets no entry and takes part in no division. The call returns, so no
  ZeroDivisionError is raised, for \<open>k\<close> at least 1 that converts to a double exactly, a
  score function that returns the scores of the candidates it is given, and training
  items in \<open>[0, no_items)\<close>.
\<close>

theorem precision_at_k_entries:
  assumes k: "1 \<le> k" "k \<le> 2 ^ 53"
    and scores: "\<And>uid pids h0. uid \<in> user_id ` set test_ratings \<Longrightarrow> set pids \<subseteq> {0..<no_items} \<Longrightarrow>
        \<exists>a h1. pred_func model uid pids train_ratings h0 = Inr (a, h1) \<and>
               heap_get h1 a = Some (map (score uid) pids)"
    and ids: "\<And>r. r \<in> set train_ratings \<Longrightarrow> 0 \<le> item_id r \<and> item_id r < no_items"
  shows "\<exists>precisions h'.
           precision_at_k argsort model pred_func train_ratings test_ratings no_users no_items k h =
             Inr (precisions, h') \<and>
           length precisions = card {uid. history test_ratings uid \<noteq> {}} \<and>
           list_all2
             (\<lambda>uid p. \<exists>h0 h1.
                user_precision argsort model pred_func train_ratings (np_arange no_items) k uid
                  (filter (\<lambda>r. user_id r = uid) test_ratings) h0 = Inr (p, h1))
             (sorted_list_of_set {uid. history test_ratings uid \<noteq> {}}) precisions"
proof -
  let ?users = "sorted_list_of_set {uid. history test_ratings uid \<noteq> {}}"
  let ?Q = "\<lambda>uid p. \<exists>h0 h1.
      user_precision argsort model pred_func train_ratings (np_arange no_items) k uid
        (filter (\<lambda>r. user_id r = uid) test_ratings) h0 = Inr (p, h1)"
  from precision_at_k_returns [where pred_func = pred_func and model = model and score = score,
      OF k scores ids] obtain precisions h' where
    run: "precision_at_k argsort model pred_func train_ratings test_ratings no_users no_items k h =
            Inr (precisions, h')"
    by blast
  have "list_all2 ?Q (sorted_list_of_set (user_id ` set test_ratings)) precisions"
    by (rule precision_at_k_all2 [OF run]) blast
  then have all2: "list_all2 ?Q ?users precisions" by (simp only: present_users)
  have "length precisions = length ?users" using list_all2_lengthD [OF all2] by simp
  also have "\<dots> = card {uid. history test_ratings uid \<noteq> {}}"
    by (simp add: present_users)
  finally have "length precisions = card {uid. history test_ratings uid \<noteq> {}}" .
  with run all2 show ?thesis by blast
qed

text \<open>
  The example with a third user in the training frame who has no held-out item: the
  call returns two entries, for the users 0 and 1 in this order.
\<close>

theorem precision_at_k_entries_witness:
  "(\<exists>precisions h'.
      precision_at_k stable_argsort () (item_scores example_score) wider_train example_test
        3 4 2 [] = Inr (precisions, h') \<and>
      length precisions = card {uid. history example_test uid \<noteq> {}} \<and>
      list_all2
        (\<lambda>uid p. \<exists>h0 h1.
           user_precision stable_argsort () (item_scores example_score) wider_train (np_arange 4) 2
             uid (filter (\<lambda>r. user_id r = uid) example_test) h0 = Inr (p, h1))
        (sorted_list_of_set {uid. history example_test uid \<noteq> {}}) precisions) \<and>
   precision_at_k stable_argsort () (item_scores example_score) wider_train example_test
     3 4 2 [] =
   Inr ([Fin (1 / 2), Fin 1], [[NInf, Fin 10, Fin 0, Fin 1], [Fin 5, Fin 10, NInf, Fin 1]]) \<and>
   sorted_list_of_set {uid. history example_test uid \<noteq> {}} = [0, 1] \<and>
   history wider_train 2 = {1} \<and> history example_test 2 = {}"
proof -
  let ?pf = "item_scores example_score :: unit pred_func"
  have scores: "\<exists>a h1. ?pf () uid pids wider_train h0 = Inr (a, h1) \<and>
                  heap_get h1 a = Some (map (example_score uid) pids)" for uid pids h0
    by (simp add: item_scores_def heap_alloc_def heap_get_def)
  have ids: "0 \<le> item_id r \<and> item_id r < 4" if "r \<in> set wider_train" for r
    using that by (auto simp: wider_train_def row_def)
  have hist: "history wider_train 2 = {1}" "history example_test 2 = {}"
    by (simp_all add: wider_train_def example_test_def row_def flip: history_filter)
  show ?thesis
    using precision_at_k_entries [where pred_func = ?pf and model = "()"
        and score = example_score and k = 2 and test_ratings = example_test and no_users = 3
        and h = "[]" and argsort = stable_argsort, OF _ _ scores ids]
    by (simp add: wider_run example_users hist)
qed

subsection \<open>Precision times k\<close>

text \<open>
  C6 claims that the returned precision times \<open>k\<close> is the hit count exactly, with no
  rounding error. The division is a floating-point division. With one candidate, one
  held-out item and \<open>k = 49\<close> the hit count is 1 and the returned value is the double
  nearest to \<open>1/49\<close>; its product with 49 is not 1, neither exactly nor when the product
  is rounded to a double again.
\<close>

theorem precision_times_k_counterexample:
  "precision_at_k stable_argsort () (fresh_scores unit_scores) [] [row 0 0] 1 1 49 [] =
     Inr ([Fin (5882252574524729 / 288230376151711744)], [[Fin 1]]) \<and>
   user_top_k stable_argsort () (fresh_scores unit_scores) [] (np_arange 1) 49 0 [] =
     Inr ({0}, [[Fin 1]]) \<and>
   card ({0} \<inter> history [row 0 0] 0) = 1 \<and>
   (5882252574524729 / 288230376151711744 :: rat) * 49 \<noteq> 1 \<and>
   round_binary64 (5882252574524729 / 288230376151711744 * 49) \<noteq> 1"
proof -
  have top: "user_top_k stable_argsort () (fresh_scores unit_scores) [] (np_arange 1) 49 0 [] =
               Inr ({0}, [[Fin 1]])"
    by (simp add: user_top_k_def fresh_scores_def unit_scores_def heap_alloc_def heap_get_def
        stable_argsort_def py_slice_to_def)
  have hits: "card ({0} \<inter> history [row 0 0] 0) = 1"
    by (simp add: row_def flip: train_pids_set)
  have "round_binary64 (5882252574524729 / 288230376151711744 * 49) =
          9007199254740991 / 9007199254740992" by code_simp
  then have "round_binary64 (5882252574524729 / 288230376151711744 * 49) \<noteq> 1" by simp
  then show ?thesis using unit_run top hits by simp
qed

text \<open>
  C6, amended. For \<open>1 \<le> k \<le> 2\<^sup>5\<^sup>3\<close> every returned precision is the double nearest to
  \<open>c / k\<close>, where \<open>c\<close> is the number of held-out items in the top-k set the code selected;
  its product with \<open>k\<close> differs from \<open>c\<close> by at most \<open>c / 2\<^sup>5\<^sup>3\<close>, and it lies in \<open>[0, 1]\<close>.
\<close>

theorem precision_times_k_bound:
  assumes k: "1 \<le> k" "k \<le> 2 ^ 53"
    and run: "precision_at_k argsort model pred_func train_ratings test_ratings no_users
                no_items k h = Inr (precisions, h')"
  shows "list_all2
           (\<lambda>uid p. \<exists>T h0 h1 v.
              user_top_k argsort model pred_func train_ratings (np_arange no_items) k uid h0 =
                Inr (T, h1) \<and>
              p = Fin v \<and>
              v = round_binary64 (of_nat (card (T \<inter> history test_ratings uid)) / of_int k) \<and>
              \<bar>v * of_int k - of_nat (card (T \<inter> history test_ratings uid))\<bar> \<le>
                of_nat (card (T \<inter> history test_ratings uid)) / 2 ^ 53 \<and>
              0 \<le> v \<and> v \<le> 1)
           (sorted_list_of_set {uid. history test_ratings uid \<noteq> {}}) precisions"
  unfolding present_users
proof (rule precision_at_k_all2 [OF run])
  fix uid h0 p h1
  let ?g = "filter (\<lambda>r. user_id r = uid) test_ratings"
  assume "user_precision argsort model pred_func train_ratings (np_arange no_items) k uid ?g h0 =
            Inr (p, h1)"
  then obtain T fk where top: "user_top_k argsort model pred_func train_ratings
        (np_arange no_items) k uid h0 = Inr (T, h1)"
    and fk: "py_float k = Inr fk"
    and div: "py_truediv (int (card (T \<inter> item_id ` set ?g))) fk = Inr p"
    by (rule user_precision_InrE)
  define c where "c = int (card (T \<inter> history test_ratings uid))"
  define v where "v = round_binary64 (of_int c / of_int k)"
  have T: "finite T" "int (card T) \<le> k" using user_top_k_card [OF _ top] k(1) by simp_all
  have "card (T \<inter> history test_ratings uid) \<le> card T" using T(1) by (intro card_mono) simp_all
  then have c: "0 \<le> c" "c \<le> k" using T(2) by (simp_all add: c_def)
  have "fk = of_int k" using fk py_float_exact [of k] k by simp
  then have p: "p = Fin v"
    using div py_truediv_fraction [OF c k] by (auto simp add: history_def c_def v_def)
  have q: "0 \<le> (of_int c / of_int k :: rat)" "(of_int c / of_int k :: rat) \<le> 1"
    using c k(1) by simp_all
  have "\<bar>v * of_int k - of_int c\<bar> \<le> of_int c / 2 ^ 53"
    unfolding v_def by (rule round_binary64_fraction_error [OF c(1) k])
  moreover have "0 \<le> v" "v \<le> 1"
    unfolding v_def by (rule round_binary64_nonneg [OF q(1)], rule round_binary64_le_one [OF q])
  ultimately show "\<exists>T h0 h1 v.
              user_top_k argsort model pred_func train_ratings (np_arange no_items) k uid h0 =
                Inr (T, h1) \<and>
              p = Fin v \<and>
              v = round_binary64 (of_nat (card (T \<inter> history test_ratings uid)) / of_int k) \<and>
              \<bar>v * of_int k - of_nat (card (T \<inter> history test_ratings uid))\<bar> \<le>
                of_nat (card (T \<inter> history test_ratings uid)) / 2 ^ 53 \<and>
              0 \<le> v \<and> v \<le> 1"
    using top p by (auto simp: c_def v_def)
qed

text \<open>The example, with \<open>k = 2\<close>: the values \<open>1/2\<close> and \<open>1\<close> are exact.\<close>

theorem precision_times_k_bound_witness:
  "list_all2
     (\<lambda>uid p. \<exists>T h0 h1 v.
        user_top_k stable_argsort () (fresh_scores example_scores) example_train (np_arange 4) 2
          uid h0 = Inr (T, h1) \<and>
        p = Fin v \<and>
        v = round_binary64 (of_nat (card (T \<inter> history example_test uid)) / 2) \<and>
        \<bar>v * 2 - of_nat (card (T \<inter> history example_test uid))\<bar> \<le>
          of_nat (card (T \<inter> history example_test uid)) / 2 ^ 53 \<and>
        0 \<le> v \<and> v \<le> 1)
     (sorted_list_of_set {uid. history example_test uid \<noteq> {}}) [Fin (1 / 2), Fin 1]"
  using precision_times_k_bound [OF _ _ example_run] by simp

subsection \<open>The concrete scenario\<close>

text \<open>
  C7. With \<^verbatim>\<open>no_items = 4\<close>, \<^verbatim>\<open>k = 2\<close>, training history \<open>{user0: {0}}\<close>, test history
  \<open>{user0: {1, 2}}\<close> and the scores \<open>[5, 10, 0, 1]\<close> for user 0 over the candidates
  \<open>[0, 1, 2, 3]\<close>, \<^verbatim>\<open>precision_at_k\<close> returns the single value \<open>0.5\<close>: item 0 is overwritten,
  the top-2 set is \<open>{1, 3}\<close>, and of these only item 1 is held out. The scores are
  strictly ordered after the overwrite, so every argsort that meets NumPy's contract
  gives this result. The returned array is left with its first entry overwritten.
\<close>

theorem scenario_precision_half:
  assumes spec: "argsort_spec argsort"
    and call: "pred_func model 0 [0, 1, 2, 3] train_ratings h = Inr (a, h1)"
    and scores: "heap_get h1 a = Some [Fin 5, Fin 10, Fin 0, Fin 1]"
    and train: "train_ratings = [\<lparr>user_id = 0, item_id = 0, rating = r0, timestamp = t0\<rparr>]"
    and test: "test_ratings = [\<lparr>user_id = 0, item_id = 1, rating = r1, timestamp = t1\<rparr>,
                              \<lparr>user_id = 0, item_id = 2, rating = r2, timestamp = t2\<rparr>]"
  shows "precision_at_k argsort model pred_func train_ratings test_ratings no_users 4 2 h =
           Inr ([Fin (1 / 2)], h1[a := [NInf, Fin 10, Fin 0, Fin 1]]) \<and>
         user_top_k argsort model pred_func train_ratings (np_arange 4) 2 0 h =
           Inr ({1, 3}, h1[a := [NInf, Fin 10, Fin 0, Fin 1]]) \<and>
         {1, 3} \<inter> history test_ratings 0 = {1}"
proof -
  have pids: "np_arange 4 = [0, 1, 2, 3]" by (rule np_arange_4)
  have groups: "groupby_user_id test_ratings = [(0, test_ratings)]"
    by (simp add: groupby_user_id_def test)
  have "distinct [PInf, Fin (- 10), Fin 0, Fin (- 1)]" by simp
  from argsort_unique [OF spec this]
  have order: "argsort [PInf, Fin (- 10), Fin 0, Fin (- 1)] = [1, 3, 2, 0]"
    by (simp add: stable_argsort_def less_eq_score_def upt_rec)
  have top: "user_top_k argsort model pred_func train_ratings [0, 1, 2, 3] 2 0 h =
               Inr ({1, 3}, h1[a := [NInf, Fin 10, Fin 0, Fin 1]])"
    by (simp add: user_top_k_def call [unfolded train] scores train np_index_def order
        py_slice_to_def)
  have hist: "history test_ratings 0 = {1, 2}"
    by (auto simp add: test simp flip: history_filter)
  have rel: "{1, 3} \<inter> history test_ratings 0 = {1::int}"
    by (simp add: hist)
  have hits: "card ({1, 3} \<inter> item_id ` set test_ratings) = (1::nat)"
    by (simp add: test)
  have fk: "py_float 2 = Inr 2"
    using py_float_exact [of 2] by simp
  have div: "py_truediv 1 2 = Inr (Fin (1 / 2))"
    using py_truediv_fraction [of 1 2] by (simp add: round_binary64_half)
  have "precision_at_k argsort model pred_func train_ratings test_ratings no_users 4 2 h =
           Inr ([Fin (1 / 2)], h1[a := [NInf, Fin 10, Fin 0, Fin 1]])"
    by (simp add: precision_at_k_def pids groups user_precision_def top hits fk div)
  with top rel show ?thesis by (simp only: pids simp_thms)
qed

text \<open>The scenario with the stable argsort and a score function that allocates its result.\<close>

theorem scenario_precision_half_witness:
  "argsort_spec stable_argsort \<and>
   precision_at_k stable_argsort () (item_scores example_score) [row 0 0] [row 0 1, row 0 2]
     1 4 2 [] =
     Inr ([Fin (1 / 2)], [[NInf, Fin 10, Fin 0, Fin 1]]) \<and>
   user_top_k stable_argsort () (item_scores example_score) [row 0 0] (np_arange 4) 2 0 [] =
     Inr ({1, 3}, [[NInf, Fin 10, Fin 0, Fin 1]]) \<and>
   {1, 3} \<inter> history [row 0 1, row 0 2] 0 = {1}"
  using scenario_precision_half [where argsort = stable_argsort
      and pred_func = "item_scores example_score" and model = "()"
      and train_ratings = "[row 0 0]" and test_ratings = "[row 0 1, row 0 2]"
      and h = "[]" and a = 0 and ?h1.0 = "[[Fin 5, Fin 10, Fin 0, Fin 1]]"
      and ?r0.0 = 0 and ?t0.0 = 0 and ?r1.0 = 0 and ?t1.0 = 0 and ?r2.0 = 0 and ?t2.0 = 0
      and no_users = 1]
  by (simp add: stable_argsort_spec item_scores_def example_score_def row_def heap_alloc_def
      heap_get_def)

subsection \<open>Repeated runs\<close>

text \<open>
  C8 claims that two runs on identical inputs with the same deterministic score function
  return identical lists. A score function that returns the same array in every call is
  deterministic, and \<^verbatim>\<open>precision_at_k\<close> writes into the array it is given: the second
  run starts from the array the first run left. With three items, \<open>k = 1\<close>, user 0 holding out
  item 1 and user 1 having seen item 1, the first run returns \<open>[1, 1]\<close> and the second
  \<open>[0, 1]\<close>.
\<close>

theorem repeated_runs_differ_counterexample:
  "precision_at_k stable_argsort 0 cached_scores shared_train shared_test 2 3 1
     [[Fin 0, Fin 10, Fin 5]] = Inr ([Fin 1, Fin 1], [[Fin 0, NInf, Fin 5]]) \<and>
   precision_at_k stable_argsort 0 cached_scores shared_train shared_test 2 3 1
     [[Fin 0, NInf, Fin 5]] = Inr ([Fin 0, Fin 1], [[Fin 0, NInf, Fin 5]])"
  by (simp add: shared_first_run shared_second_run)

text \<open>
  C8, amended. Two runs of \<^verbatim>\<open>precision_at_k\<close> on the same arguments, with a score function
  whose outcome (the exception, or the scores in the returned array) does not depend on
  the state of the heap, return the same list of precisions or raise the same
  exception, whatever the two heaps are; in particular the second run may start in the
  heap the first one left. This includes ties at the boundary of the top-k set:
  \<^verbatim>\<open>np.argsort\<close> is a function of the array it is given, and both runs call the same one.
  Which of the tied items it selects is not fixed by NumPy's contract. When no two items
  tie at the boundary, the choice of the argsort does not matter either: any two that
  meet the contract give the same list, for a score function that returns the scores of
  its candidates.
\<close>

theorem precision_at_k_deterministic:
  "(heap_independent pred_func model train_ratings (user_id ` set test_ratings) no_items \<longrightarrow>
      result_of
        (precision_at_k argsort model pred_func train_ratings test_ratings no_users no_items k h1) =
      result_of
        (precision_at_k argsort model pred_func train_ratings test_ratings no_users no_items k h2)) \<and>
   (argsort_spec argsort1 \<and> argsort_spec argsort2 \<and> 1 \<le> k \<and> k \<le> 2 ^ 53 \<and>
    scores_candidates pred_func model train_ratings (user_id ` set test_ratings) no_items score \<and>
    (\<forall>r \<in> set train_ratings. 0 \<le> item_id r \<and> item_id r < no_items) \<and>
    (\<forall>uid \<in> user_id ` set test_ratings.
       untied_top_k no_items (spec_masked_score (score uid) (history train_ratings uid)) k) \<longrightarrow>
    (\<exists>precisions h1' h2'.
       precision_at_k argsort1 model pred_func train_ratings test_ratings no_users no_items k h1 =
         Inr (precisions, h1') \<and>
       precision_at_k argsort2 model pred_func train_ratings test_ratings no_users no_items k h2 =
         Inr (precisions, h2')))"
proof (intro conjI impI)
  assume "heap_independent pred_func model train_ratings (user_id ` set test_ratings) no_items"
  then show "result_of
        (precision_at_k argsort model pred_func train_ratings test_ratings no_users no_items k h1) =
      result_of
        (precision_at_k argsort model pred_func train_ratings test_ratings no_users no_items k h2)"
    by (rule precision_at_k_same_heapless)
next
  assume a: "argsort_spec argsort1 \<and> argsort_spec argsort2 \<and> 1 \<le> k \<and> k \<le> 2 ^ 53 \<and>
    scores_candidates pred_func model train_ratings (user_id ` set test_ratings) no_items score \<and>
    (\<forall>r \<in> set train_ratings. 0 \<le> item_id r \<and> item_id r < no_items) \<and>
    (\<forall>uid \<in> user_id ` set test_ratings.
       untied_top_k no_items (spec_masked_score (score uid) (history train_ratings uid)) k)"
  show "\<exists>precisions h1' h2'.
       precision_at_k argsort1 model pred_func train_ratings test_ratings no_users no_items k h1 =
         Inr (precisions, h1') \<and>
       precision_at_k argsort2 model pred_func train_ratings test_ratings no_users no_items k h2 =
         Inr (precisions, h2')"
  proof (rule precision_at_k_any_argsort [where score = score])
    show "argsort_spec argsort1" "argsort_spec argsort2" "1 \<le> k" "k \<le> 2 ^ 53"
      using a by simp_all
    show "scores_candidates pred_func model train_ratings (user_id ` set test_ratings)
            no_items score"
      using a by simp
    show "0 \<le> item_id r \<and> item_id r < no_items" if "r \<in> set train_ratings" for r
      using a that by blast
    show "untied_top_k no_items (spec_masked_score (score uid) (history train_ratings uid)) k"
      if "uid \<in> user_id ` set test_ratings" for uid
      using a that by blast
  qed
qed

text \<open>
  Three candidates with the same score and \<open>k = 1\<close>: from the empty heap and from the heap
  of an earlier run the stable argsort selects item 0 and misses the held-out item 2;
  the reverse argsort selects item 2. On the example, where no scores tie, the two
  argsorts return the same list.
\<close>

theorem precision_at_k_deterministic_witness:
  "heap_independent (fresh_scores tied_scores) () [] (user_id ` set [row 0 2]) 3 \<and>
   result_of (precision_at_k stable_argsort () (fresh_scores tied_scores) [] [row 0 2] 1 3 1 []) =
   result_of (precision_at_k stable_argsort () (fresh_scores tied_scores) [] [row 0 2] 1 3 1
                [[Fin 1, Fin 1, Fin 1]]) \<and>
   precision_at_k stable_argsort () (fresh_scores tied_scores) [] [row 0 2] 1 3 1 [] =
     Inr ([Fin 0], [[Fin 1, Fin 1, Fin 1]]) \<and>
   precision_at_k stable_argsort () (fresh_scores tied_scores) [] [row 0 2] 1 3 1
     [[Fin 1, Fin 1, Fin 1]] = Inr ([Fin 0], [[Fin 1, Fin 1, Fin 1], [Fin 1, Fin 1, Fin 1]]) \<and>
   argsort_spec stable_argsort \<and> argsort_spec reverse_argsort \<and>
   scores_candidates (item_scores example_score) () example_train (user_id ` set example_test)
     4 example_score \<and>
   list_all (\<lambda>r. 0 \<le> item_id r \<and> item_id r < 4) example_train \<and>
   user_id ` set example_test = {0, 1} \<and>
   untied_top_k 4 (spec_masked_score (example_score 0) (history example_train 0)) 2 \<and>
   untied_top_k 4 (spec_masked_score (example_score 1) (history example_train 1)) 2 \<and>
   (\<exists>precisions h1' h2'.
      precision_at_k stable_argsort () (item_scores example_score) example_train example_test
        2 4 2 [] = Inr (precisions, h1') \<and>
      precision_at_k reverse_argsort () (item_scores example_score) example_train example_test
        2 4 2 [[Fin 7]] = Inr (precisions, h2')) \<and>
   precision_at_k stable_argsort () (item_scores example_score) example_train example_test
     2 4 2 [] =
     Inr ([Fin (1 / 2), Fin 1], [[NInf, Fin 10, Fin 0, Fin 1], [Fin 5, Fin 10, NInf, Fin 1]]) \<and>
   precision_at_k reverse_argsort () (item_scores example_score) example_train example_test
     2 4 2 [[Fin 7]] =
     Inr ([Fin (1 / 2), Fin 1],
          [[Fin 7], [NInf, Fin 10, Fin 0, Fin 1], [Fin 5, Fin 10, NInf, Fin 1]]) \<and>
   precision_at_k reverse_argsort () (fresh_scores tied_scores) [] [row 0 2] 1 3 1 [] =
     Inr ([Fin 1], [[Fin 1, Fin 1, Fin 1]])"
proof -
  let ?tied = "fresh_scores tied_scores :: unit pred_func"
  let ?pf = "item_scores example_score :: unit pred_func"
  have ind: "heap_independent ?tied () [] (user_id ` set [row 0 2]) 3"
    by (simp add: heap_independent_def returned_def fresh_scores_def heap_alloc_def heap_get_def)
  have sc: "scores_candidates ?pf () example_train (user_id ` set example_test) 4 example_score"
    by (simp add: scores_candidates_def item_scores_def heap_alloc_def heap_get_def
        example_score_def)
  have ids: "\<forall>r \<in> set example_train. 0 \<le> item_id r \<and> item_id r < 4"
    by (simp add: example_train_def row_def)
  have users: "user_id ` set example_test = {0, 1}"
    by (auto simp: example_test_def row_def)
  have h0: "history example_train 0 = {0}" and h1: "history example_train 1 = {2}"
    by (simp_all add: example_train_def row_def flip: history_filter)
  have range: "{0..<4::int} = {0, 1, 2, 3}" by auto
  have u0: "untied_top_k 4 (spec_masked_score (example_score 0) (history example_train 0)) 2"
    unfolding untied_top_k_def
    by (rule exI [of _ "{1, 3}"])
       (auto simp add: h0 range spec_masked_score_def example_score_def less_score_def)
  have u1: "untied_top_k 4 (spec_masked_score (example_score 1) (history example_train 1)) 2"
    unfolding untied_top_k_def
    by (rule exI [of _ "{0, 1}"])
       (auto simp add: h1 range spec_masked_score_def example_score_def less_score_def)
  have untied: "\<forall>uid \<in> user_id ` set example_test.
      untied_top_k 4 (spec_masked_score (example_score uid) (history example_train uid)) 2"
    using u0 u1 by (simp add: users)
  show ?thesis
    using precision_at_k_deterministic [where pred_func = ?tied and model = "()"
        and train_ratings = "[]" and test_ratings = "[row 0 2]" and no_items = 3 and k = 1
        and argsort = stable_argsort and no_users = 1 and ?h1.0 = "[]"
        and ?h2.0 = "[[Fin 1, Fin 1, Fin 1]]"]
      precision_at_k_deterministic [where pred_func = ?pf and model = "()"
        and train_ratings = example_train and test_ratings = example_test and no_items = 4
        and k = 2 and ?argsort1.0 = stable_argsort and ?argsort2.0 = reverse_argsort
        and score = example_score and no_users = 2 and ?h1.0 = "[]" and ?h2.0 = "[[Fin 7]]"]
      ind sc ids untied u0 u1 users stable_argsort_spec reverse_argsort_spec
    by (simp add: tied_run_stable tied_run_reverse item_run item_run_reverse list_all_iff)
qed

subsection \<open>What a call leaves unchanged\<close>

text \<open>
  C9 claims that after any call of \<^verbatim>\<open>precision_at_k\<close> the model is equal to its value
  before the call. \<^verbatim>\<open>precision_at_k\<close> writes into the array that the score function
  returns. In the example the model owns the array at address 0 and the score function
  returns it: after the call the array of the model has changed.
\<close>

theorem model_array_changed_counterexample:
  "precision_at_k stable_argsort 0 cached_scores example_train example_test 2 4 2
     [[Fin 5, Fin 10, Fin 0, Fin 1]] =
     Inr ([Fin (1 / 2), Fin (1 / 2)], [[NInf, Fin 10, NInf, Fin 1]]) \<and>
   heap_get [[Fin 5, Fin 10, Fin 0, Fin 1]] 0 \<noteq> heap_get [[NInf, Fin 10, NInf, Fin 1]] 0"
  by (simp add: cached_run heap_get_def)

text \<open>
  C9, amended. \<^verbatim>\<open>predict_from_latent\<close> changes no array that existed before the call,
  whether it returns or raises, and the array it returns is new. A call of
  \<^verbatim>\<open>precision_at_k\<close> with a score function of this kind changes no array that existed
  before the call, whether it returns or raises: the heap before the call is an initial
  segment of the heap after it. With any score function, what \<^verbatim>\<open>precision_at_k\<close> itself
  writes in one pass of its loop is the array that the score function returned, and
  nothing else: when the score function raises, the call stops with the heap the score
  function left; when it returns, the heap after the pass differs from the heap it left
  at the returned address only.
\<close>

theorem existing_arrays_unchanged:
  "allocates_fresh (predict_from_latent np_dot) \<and>
   (allocates_fresh pred_func \<longrightarrow>
    take (length h)
      (heap_of (precision_at_k argsort model pred_func train_ratings test_ratings no_users
                  no_items k h)) = h) \<and>
   (case pred_func model uid pid_array train_ratings h of
      Inl (e, h1) \<Rightarrow>
        user_precision argsort model pred_func train_ratings pid_array k uid g h = Inl (e, h1)
    | Inr (a, h1) \<Rightarrow>
        only_changed_at a h1
          (heap_of (user_precision argsort model pred_func train_ratings pid_array k uid g h)))"
proof (intro conjI impI)
  show "allocates_fresh (predict_from_latent np_dot)" by (rule predict_from_latent_fresh)
next
  assume "allocates_fresh pred_func"
  then show "take (length h)
      (heap_of (precision_at_k argsort model pred_func train_ratings test_ratings no_users
                  no_items k h)) = h"
    by (rule precision_at_k_heap_prefix)
next
  show "case pred_func model uid pid_array train_ratings h of
      Inl (e, h1) \<Rightarrow>
        user_precision argsort model pred_func train_ratings pid_array k uid g h = Inl (e, h1)
    | Inr (a, h1) \<Rightarrow>
        only_changed_at a h1
          (heap_of (user_precision argsort model pred_func train_ratings pid_array k uid g h))"
  proof (cases "pred_func model uid pid_array train_ratings h")
    case (Inl r)
    obtain e h1 where r: "r = (e, h1)" by (cases r)
    show ?thesis
      using user_precision_raises [where pred_func = pred_func and model = model,
          OF Inl [unfolded r]]
      by (simp add: Inl r)
  next
    case (Inr r)
    obtain a h1 where r: "r = (a, h1)" by (cases r)
    show ?thesis
      using user_top_k_only_changed [where pred_func = pred_func and model = model,
          OF Inr [unfolded r]]
      by (simp add: Inr r user_precision_heap_of)
  qed
qed

text \<open>
  The example with the repository's own score function, started in a heap that holds one
  array. With \<open>k = 2\<close> the call returns and two arrays are added; with \<open>k = 0\<close> it raises
  after one array is added; the first array is as before in both cases. The pass for
  user 0 changes the array that the score function returned, at address 1.
\<close>

theorem existing_arrays_unchanged_witness:
  "allocates_fresh (predict_from_latent seq_np_dot) \<and>
   precision_at_k stable_argsort example_model (predict_from_latent seq_np_dot) example_train
     example_test 2 4 2 [[Fin 7]] =
     Inr ([Fin 1, Fin 1],
          [[Fin 7], [NInf, Fin 2, Fin 3, Fin 0], [Fin 0, Fin 1, NInf, Fin (- 1)]]) \<and>
   take (length [[Fin 7]])
     [[Fin 7], [NInf, Fin 2, Fin 3, Fin 0], [Fin 0, Fin 1, NInf, Fin (- 1)]] = [[Fin 7]] \<and>
   precision_at_k stable_argsort example_model (predict_from_latent seq_np_dot) example_train
     example_test 2 4 0 [[Fin 7]] =
     Inl (ZeroDivisionError, [[Fin 7], [NInf, Fin 2, Fin 3, Fin 0]]) \<and>
   take (length [[Fin 7]]) [[Fin 7], [NInf, Fin 2, Fin 3, Fin 0]] = [[Fin 7]] \<and>
   predict_from_latent seq_np_dot example_model 0 [0, 1, 2, 3] example_train [[Fin 7]] =
     Inr (1, [[Fin 7], [Fin 1, Fin 2, Fin 3, Fin 0]]) \<and>
   user_precision stable_argsort example_model (predict_from_latent seq_np_dot) example_train
     [0, 1, 2, 3] 2 0 [row 0 1, row 0 2] [[Fin 7]] =
     Inr (Fin 1, [[Fin 7], [NInf, Fin 2, Fin 3, Fin 0]]) \<and>
   only_changed_at 1 [[Fin 7], [Fin 1, Fin 2, Fin 3, Fin 0]]
     [[Fin 7], [NInf, Fin 2, Fin 3, Fin 0]]"
  using existing_arrays_unchanged [where pred_func = "predict_from_latent seq_np_dot"
      and np_dot = seq_np_dot and argsort = stable_argsort and model = example_model
      and train_ratings = example_train and test_ratings = example_test and no_users = 2
      and no_items = 4 and k = 2 and h = "[[Fin 7]]" and uid = 0 and pid_array = "[0, 1, 2, 3]"
      and g = "[row 0 1, row 0 2]"]
    existing_arrays_unchanged [where pred_func = "predict_from_latent seq_np_dot"
      and np_dot = seq_np_dot and argsort = stable_argsort and model = example_model
      and train_ratings = example_train and test_ratings = example_test and no_users = 2
      and no_items = 4 and k = 0 and h = "[[Fin 7]]" and uid = 0 and pid_array = "[0, 1, 2, 3]"
      and g = "[row 0 1, row 0 2]"]
  by (simp add: latent_run latent_run_zero_k latent_scores_0 latent_body_0 heap_of_def)

subsection \<open>The returned score array is overwritten\<close>

text \<open>
  C10. For every user, \<^verbatim>\<open>precision_at_k\<close> writes into the array that the score function
  returned: after the loop body the heap differs from the heap the score function left
  only at the returned address, where the entries at the user's training items are
  negative infinity. Consequently, when the score function returns one shared array for
  every user and leaves the heap alone, that array is still modified after the call: it
  holds negative infinity at the training items of every user of the test frame, and no
  other array has changed.
\<close>

theorem score_array_overwritten_in_place:
  "(pred_func model uid pid_array train_ratings h = Inr (a, h1) \<longrightarrow>
    heap_get h1 a = Some xs \<longrightarrow>
    user_top_k argsort model pred_func train_ratings pid_array k uid h = Inr (T, h2) \<longrightarrow>
    only_changed_at a h1 h2 \<and>
    (\<exists>xs'. heap_get h2 a = Some xs' \<and> overwritten xs (history train_ratings uid) xs')) \<and>
   ((\<forall>uid h0. pred_func model uid (np_arange no_items) train_ratings h0 = Inr (b, h0)) \<longrightarrow>
    heap_get h b = Some ys \<longrightarrow>
    precision_at_k argsort model pred_func train_ratings test_ratings no_users no_items k h =
      Inr (precisions, h') \<longrightarrow>
    only_changed_at b h h' \<and>
    (\<exists>ys'. heap_get h' b = Some ys' \<and>
       overwritten ys (\<Union>uid \<in> {uid. history test_ratings uid \<noteq> {}}.
                        history train_ratings uid) ys'))"
proof (intro conjI impI)
  assume "pred_func model uid pid_array train_ratings h = Inr (a, h1)" "heap_get h1 a = Some xs"
    "user_top_k argsort model pred_func train_ratings pid_array k uid h = Inr (T, h2)"
  from user_top_k_overwrites [OF this]
  show "only_changed_at a h1 h2"
    "\<exists>xs'. heap_get h2 a = Some xs' \<and> overwritten xs (history train_ratings uid) xs'"
    by blast+
next
  assume shared: "\<forall>uid h0. pred_func model uid (np_arange no_items) train_ratings h0 = Inr (b, h0)"
    and "heap_get h b = Some ys"
    "precision_at_k argsort model pred_func train_ratings test_ratings no_users no_items k h =
      Inr (precisions, h')"
  from precision_at_k_shared_array [OF shared [rule_format] this(2,3)]
  show "only_changed_at b h h'"
    "\<exists>ys'. heap_get h' b = Some ys' \<and>
       overwritten ys (\<Union>uid \<in> {uid. history test_ratings uid \<noteq> {}}.
                        history train_ratings uid) ys'"
    by blast+
qed

text \<open>
  The example with a model that owns the array at address 0 and a score function that
  returns this array for every user: after the loop body for user 0 the entry of item 0
  is overwritten, after the call so is the entry of item 2, seen by user 1.
\<close>

theorem score_array_overwritten_in_place_witness:
  "(only_changed_at 0 [[Fin 5, Fin 10, Fin 0, Fin 1]] [[NInf, Fin 10, Fin 0, Fin 1]] \<and>
    (\<exists>xs'. heap_get [[NInf, Fin 10, Fin 0, Fin 1]] 0 = Some xs' \<and>
       overwritten [Fin 5, Fin 10, Fin 0, Fin 1] (history example_train 0) xs')) \<and>
   (only_changed_at 0 [[Fin 5, Fin 10, Fin 0, Fin 1]] [[NInf, Fin 10, NInf, Fin 1]] \<and>
    (\<exists>ys'. heap_get [[NInf, Fin 10, NInf, Fin 1]] 0 = Some ys' \<and>
       overwritten [Fin 5, Fin 10, Fin 0, Fin 1]
         (\<Union>uid \<in> {uid. history example_test uid \<noteq> {}}. history example_train uid) ys')) \<and>
   precision_at_k stable_argsort 0 cached_scores example_train example_test 2 4 2
     [[Fin 5, Fin 10, Fin 0, Fin 1]] =
   Inr ([Fin (1 / 2), Fin (1 / 2)], [[NInf, Fin 10, NInf, Fin 1]])"
  using score_array_overwritten_in_place [where pred_func = cached_scores and model = 0
      and uid = 0 and pid_array = "np_arange 4" and train_ratings = example_train
      and h = "[[Fin 5, Fin 10, Fin 0, Fin 1]]" and a = 0
      and ?h1.0 = "[[Fin 5, Fin 10, Fin 0, Fin 1]]" and xs = "[Fin 5, Fin 10, Fin 0, Fin 1]"
      and argsort = stable_argsort and k = 2 and T = "{1, 3}"
      and ?h2.0 = "[[NInf, Fin 10, Fin 0, Fin 1]]" and no_items = 4 and b = 0
      and ys = "[Fin 5, Fin 10, Fin 0, Fin 1]" and test_ratings = example_test and no_users = 2
      and precisions = "[Fin (1 / 2), Fin (1 / 2)]" and h' = "[[NInf, Fin 10, NInf, Fin 1]]"]
  by (simp add: cached_run cached_top_0 cached_scores_def heap_get_def)

end
